theory Spec2Isabelle
  imports Complex_Main "HOL-Library.AList"
begin

section \<open>JavaScript values\<close>

text \<open>
  The values that cross the module's interface: player data, the objects the exported
  functions return, the values an external call resolves to or throws. Numbers are the
  integral ones (counters, milliseconds) and \<open>NaN\<close>; an object is its own properties in
  insertion order. Converting a value to a string can throw (an object whose
  \<open>toString\<close> and \<open>valueOf\<close> are not callable), so the conversion is an outcome.
\<close>

datatype jsval =
    Undefined
  | Null
  | Bool bool
  | Num int
  | NaN
  | Str string
  | Obj "(string \<times> jsval) list"
  | Arr "jsval list"

text \<open>How a statement completes: normally with a value, or with a thrown value. For an
  \<open>async\<close> function these are the fulfilment and the rejection of the promise the
  caller awaits.\<close>

datatype 'a outcome = Return 'a | Throw jsval

text \<open>ToBoolean.\<close>

fun truthy :: "jsval \<Rightarrow> bool" where
  "truthy Undefined = False"
| "truthy Null = False"
| "truthy (Bool b) = b"
| "truthy (Num n) = (n \<noteq> 0)"
| "truthy NaN = False"
| "truthy (Str s) = (s \<noteq> [])"
| "truthy (Obj fs) = True"
| "truthy (Arr xs) = True"

definition TypeError :: "string \<Rightarrow> jsval" where
  "TypeError msg = Obj [(''name'', Str ''TypeError''), (''message'', Str msg)]"

text \<open>Reading the property \<open>k\<close> of an object the module built itself.\<close>

definition get_prop :: "jsval \<Rightarrow> string \<Rightarrow> jsval" where
  "get_prop v k = (case v of
       Obj fs \<Rightarrow> (case map_of fs k of None \<Rightarrow> Undefined | Some x \<Rightarrow> x)
     | _ \<Rightarrow> Undefined)"

section \<open>The host: everything outside the module\<close>

datatype 'a global = NotDefined | IsNull | Holds 'a

datatype advertisement_obj = Advertisement (showSticky_is_function: bool)

text \<open>What the module reads off the bridge object itself; what the bridge's methods do
  is the host's answer to the call. The bridge is the one of the external interface: it
  carries \<open>platform\<close> with its \<open>id\<close> and \<open>language\<close>; \<open>advertisement\<close> may be
  missing, as the module itself checks.\<close>

record bridge_obj =
  platform_id :: string
  platform_language :: jsval
  advertisement :: "advertisement_obj option"

datatype vk_bridge = WindowVkBridge

text \<open>Every interaction with the outside, in the order the module makes them.\<close>

datatype call =
    DateNow
  | ReadWindowBridge
  | ReadWindowVkBridge
  | Initialize
  | SendMessage string
  | ShowInterstitial
  | ShowRewarded
  | ShowSticky
  | StorageSet jsval
  | StorageGet
  | Purchase jsval
  | JoinCommunity jsval
  | Share
  | VkSend string jsval
  | LocalStorage_getItem string
  | LocalStorage_setItem string string
  | ImportLocalization
  | SetLang string
  | WindowOpen string string

text \<open>What an external function does when called: it returns (for a promise: resolves
  to) a value, throws synchronously, or returns a promise that rejects.\<close>

datatype reply = Returns jsval | Throws jsval | Rejects jsval

text \<open>
  The host holds the log of the calls made so far and decides, from the position in the
  log, the answer to the next call, the reading of the clock and the contents of the
  globals. \<open>localStorage\<close> is real storage. The built-ins \<open>parseInt(_, 10)\<close>,
  \<open>String\<close>, \<open>JSON.stringify\<close> and \<open>JSON.parse\<close> belong to the language, not
  to the module, and are taken as they are.
\<close>

record world =
  calls :: "call list"
  answers :: "nat \<Rightarrow> call \<Rightarrow> reply"
  clock :: "nat \<Rightarrow> int"
  window_bridge :: "nat \<Rightarrow> bridge_obj global"
  window_vkBridge :: "nat \<Rightarrow> vk_bridge global"
  localStorage :: "string \<rightharpoonup> string"
  parseInt10 :: "jsval \<Rightarrow> jsval"
  String_fn :: "jsval \<Rightarrow> string outcome"
  JSON_stringify :: "jsval \<Rightarrow> jsval"
  JSON_parse :: "string \<Rightarrow> jsval outcome"

section \<open>Module state\<close>

record sdk_state =
  bridge :: "bridge_obj option"
  vkBridge :: "vk_bridge option"
  isInitialized :: bool
  languageApplied :: bool
  gameReadySent :: bool
  lastInterstitialTime :: int
  lastShopRewardedTime :: int
  isAdsDisabled :: bool

definition initial_state :: sdk_state where
  "initial_state = \<lparr> bridge = None, vkBridge = None, isInitialized = False,
     languageApplied = False, gameReadySent = False, lastInterstitialTime = 0,
     lastShopRewardedTime = 0, isAdsDisabled = False \<rparr>"

definition INTERSTITIAL_COOLDOWN :: int where
  "INTERSTITIAL_COOLDOWN = 90000"

definition SHOP_REWARDED_COOLDOWN :: int where
  "SHOP_REWARDED_COOLDOWN = 600000"

section \<open>Statements: sequencing, try/catch, module variables, external calls\<close>

type_synonym 'a js = "sdk_state \<times> world \<Rightarrow> 'a outcome \<times> sdk_state \<times> world"

definition ret :: "'a \<Rightarrow> 'a js" where
  "ret a = (\<lambda>\<sigma>. (Return a, \<sigma>))"

definition throw :: "jsval \<Rightarrow> 'a js" where
  "throw e = (\<lambda>\<sigma>. (Throw e, \<sigma>))"

definition and_then :: "'a js \<Rightarrow> ('a \<Rightarrow> 'b js) \<Rightarrow> 'b js" where
  "and_then m f = (\<lambda>\<sigma>. case m \<sigma> of
       (Return a, \<sigma>') \<Rightarrow> f a \<sigma>'
     | (Throw e, \<sigma>') \<Rightarrow> (Throw e, \<sigma>'))"

definition try_catch :: "'a js \<Rightarrow> (jsval \<Rightarrow> 'a js) \<Rightarrow> 'a js" where
  "try_catch m h = (\<lambda>\<sigma>. case m \<sigma> of
       (Return a, \<sigma>') \<Rightarrow> (Return a, \<sigma>')
     | (Throw e, \<sigma>') \<Rightarrow> h e \<sigma>')"

definition getv :: "(sdk_state \<Rightarrow> 'a) \<Rightarrow> 'a js" where
  "getv f = (\<lambda>(s, w). (Return (f s), (s, w)))"

definition setv :: "(sdk_state \<Rightarrow> sdk_state) \<Rightarrow> unit js" where
  "setv f = (\<lambda>(s, w). (Return (), (f s, w)))"

definition builtin :: "(world \<Rightarrow> 'a) \<Rightarrow> 'a js" where
  "builtin f = (\<lambda>(s, w). (Return (f w), (s, w)))"

text \<open>\<open>v.k\<close> on a value that came from outside: a TypeError on \<open>undefined\<close> and
  \<open>null\<close>.\<close>

definition member :: "jsval \<Rightarrow> string \<Rightarrow> jsval js" where
  "member v k = (case v of
       Undefined \<Rightarrow> throw (TypeError ''Cannot read properties of undefined'')
     | Null \<Rightarrow> throw (TypeError ''Cannot read properties of null'')
     | _ \<Rightarrow> ret (get_prop v k))"

definition log_call :: "call \<Rightarrow> world \<Rightarrow> world" where
  "log_call c w = w\<lparr>calls := calls w @ [c]\<rparr>"

definition Date_now :: "int js" where
  "Date_now = (\<lambda>(s, w). (Return (clock w (length (calls w))), (s, log_call DateNow w)))"

definition invoke :: "call \<Rightarrow> reply js" where
  "invoke c = (\<lambda>(s, w). (Return (answers w (length (calls w)) c), (s, log_call c w)))"

text \<open>\<open>await f()\<close>: a rejected promise is a throw at the \<open>await\<close>.\<close>

definition await :: "call \<Rightarrow> jsval js" where
  "await c = and_then (invoke c) (\<lambda>r. case r of
       Returns v \<Rightarrow> ret v
     | Throws e \<Rightarrow> throw e
     | Rejects e \<Rightarrow> throw e)"

text \<open>\<open>f();\<close> with the result dropped: only a synchronous throw is seen.\<close>

definition call_sync :: "call \<Rightarrow> unit js" where
  "call_sync c = and_then (invoke c) (\<lambda>r. case r of
       Throws e \<Rightarrow> throw e
     | _ \<Rightarrow> ret ())"

definition read_window_bridge :: "world \<Rightarrow> bridge_obj global \<times> world" where
  "read_window_bridge w = (window_bridge w (length (calls w)), log_call ReadWindowBridge w)"

definition read_window_vkBridge :: "vk_bridge global js" where
  "read_window_vkBridge =
     (\<lambda>(s, w). (Return (window_vkBridge w (length (calls w))), (s, log_call ReadWindowVkBridge w)))"

definition localStorage_getItem :: "string \<Rightarrow> jsval js" where
  "localStorage_getItem k = and_then (invoke (LocalStorage_getItem k)) (\<lambda>r. case r of
       Throws e \<Rightarrow> throw e
     | _ \<Rightarrow> builtin (\<lambda>w. case localStorage w k of None \<Rightarrow> Null | Some v \<Rightarrow> Str v))"

text \<open>ToString: a string is its own conversion; the rest is left to \<open>String\<close>, which
  may throw.\<close>

definition ToString :: "jsval \<Rightarrow> string js" where
  "ToString v = (case v of
       Str str \<Rightarrow> ret str
     | _ \<Rightarrow> and_then (builtin (\<lambda>w. String_fn w v)) (\<lambda>r.
           case r of Return str \<Rightarrow> ret str | Throw e \<Rightarrow> throw e))"

definition localStorage_setItem :: "string \<Rightarrow> jsval \<Rightarrow> unit js" where
  "localStorage_setItem k v = and_then (ToString v) (\<lambda>str.
     and_then (invoke (LocalStorage_setItem k str)) (\<lambda>r. case r of
       Throws e \<Rightarrow> throw e
     | _ \<Rightarrow> (\<lambda>(s, w). (Return (), (s, w\<lparr>localStorage := (localStorage w)(k \<mapsto> str)\<rparr>)))))"

text \<open>\<open>Math.ceil(x / d)\<close> for integral \<open>x\<close> and positive integral \<open>d\<close>.\<close>

definition Math_ceil_div :: "int \<Rightarrow> int \<Rightarrow> int" where
  "Math_ceil_div x d = - ((- x) div d)"

section \<open>The module\<close>

subsection \<open>waitForBridge\<close>

definition maxAttempts :: nat where
  "maxAttempts = 30"

function interval_tick :: "nat \<Rightarrow> world \<Rightarrow> bridge_obj option \<times> world" where
  "interval_tick attempts w =
     (case read_window_bridge w of
        (Holds b, w') \<Rightarrow> (Some b, w')
      | (IsNull, w') \<Rightarrow> (None, w')
      | (NotDefined, w') \<Rightarrow>
          if attempts + 1 \<ge> maxAttempts then (None, w')
          else interval_tick (attempts + 1) w')"
  by pat_completeness auto
termination
  by (relation "measure (\<lambda>(attempts, w). maxAttempts - attempts)") auto

declare interval_tick.simps [simp del]

definition waitForBridge :: "(bridge_obj option) js" where
  "waitForBridge = (\<lambda>(s, w).
     case read_window_bridge w of
       (Holds b, w') \<Rightarrow> (Return (Some b), (s, w'))
     | (IsNull, w') \<Rightarrow> (Return None, (s, w'))
     | (NotDefined, w') \<Rightarrow>
         (case interval_tick 0 w' of (b, w'') \<Rightarrow> (Return b, (s, w''))))"

subsection \<open>initPlaygamaSDK\<close>

definition initPlaygamaSDK :: "(bridge_obj option) js" where
  "initPlaygamaSDK =
     and_then (getv (\<lambda>s. isInitialized s \<and> bridge s \<noteq> None)) (\<lambda>ready.
     if ready then getv bridge
     else
       try_catch
         (and_then waitForBridge (\<lambda>b.
          and_then (setv (\<lambda>s. s\<lparr>bridge := b\<rparr>)) (\<lambda>_.
          case b of
            None \<Rightarrow>
              and_then (setv (\<lambda>s. s\<lparr>isInitialized := True\<rparr>)) (\<lambda>_. ret None)
          | Some br \<Rightarrow>
              and_then (await Initialize) (\<lambda>_.
              and_then (setv (\<lambda>s. s\<lparr>isInitialized := True\<rparr>)) (\<lambda>_.
              and_then read_window_vkBridge (\<lambda>g.
              and_then
                (if platform_id br = ''vk'' \<and> g \<noteq> NotDefined then
                   and_then (setv (\<lambda>s. s\<lparr>vkBridge := (case g of Holds v \<Rightarrow> Some v | _ \<Rightarrow> None)\<rparr>)) (\<lambda>_.
                   try_catch
                     (and_then (getv vkBridge) (\<lambda>v.
                      case v of
                        None \<Rightarrow> throw (TypeError ''Cannot read properties of null'')
                      | Some _ \<Rightarrow> and_then (await (VkSend ''VKWebAppInit'' Undefined)) (\<lambda>_. ret ())))
                     (\<lambda>error. setv (\<lambda>s. s\<lparr>vkBridge := None\<rparr>)))
                 else ret ())
                (\<lambda>_. ret (Some br))))))))
         (\<lambda>error.
            and_then (setv (\<lambda>s. s\<lparr>isInitialized := True\<rparr>)) (\<lambda>_. ret None)))"

subsection \<open>applyLanguageOnce, sendGameReadyOnce, gameplayStart, gameplayStop\<close>

text \<open>The dynamic import is not awaited: when it resolves, its callback calls
  \<open>setLang\<close>; when it rejects, or \<open>setLang\<close> throws, nothing reaches the caller.\<close>

definition applyLanguageOnce :: "unit js" where
  "applyLanguageOnce =
     and_then (getv languageApplied) (\<lambda>applied.
     if applied then ret ()
     else
       and_then (setv (\<lambda>s. s\<lparr>languageApplied := True\<rparr>)) (\<lambda>_.
       and_then (getv bridge) (\<lambda>b.
       case b of
         None \<Rightarrow> ret ()
       | Some br \<Rightarrow>
           try_catch
             (let lang = (if truthy (platform_language br) then platform_language br else Str ''ru'');
                  gameLang = (if lang = Str ''ru'' then ''ru'' else ''en'')
              in and_then (invoke ImportLocalization) (\<lambda>r.
                 case r of
                   Returns _ \<Rightarrow> and_then (invoke (SetLang gameLang)) (\<lambda>_. ret ())
                 | Throws e \<Rightarrow> throw e
                 | Rejects _ \<Rightarrow> ret ()))
             (\<lambda>error. ret ()))))"

definition sendGameReadyOnce :: "unit js" where
  "sendGameReadyOnce =
     and_then (getv gameReadySent) (\<lambda>sent.
     if sent then ret ()
     else
       and_then (setv (\<lambda>s. s\<lparr>gameReadySent := True\<rparr>)) (\<lambda>_.
       and_then (getv bridge) (\<lambda>b.
       case b of
         None \<Rightarrow> ret ()
       | Some br \<Rightarrow>
           try_catch (call_sync (SendMessage ''game_ready'')) (\<lambda>error. ret ()))))"

definition gameplayStart :: "unit js" where
  "gameplayStart =
     and_then (getv bridge) (\<lambda>b.
     case b of
       None \<Rightarrow> ret ()
     | Some br \<Rightarrow>
         try_catch (call_sync (SendMessage ''gameplay_started'')) (\<lambda>error. ret ()))"

definition gameplayStop :: "unit js" where
  "gameplayStop =
     and_then (getv bridge) (\<lambda>b.
     case b of
       None \<Rightarrow> ret ()
     | Some br \<Rightarrow>
         try_catch (call_sync (SendMessage ''gameplay_stopped'')) (\<lambda>error. ret ()))"

subsection \<open>Advertisements\<close>

text \<open>\<open>await bridge.advertisement.m()\<close>: a TypeError when the bridge has no
  \<open>advertisement\<close>.\<close>

definition advertisement_call :: "bridge_obj \<Rightarrow> call \<Rightarrow> jsval js" where
  "advertisement_call br c = (case advertisement br of
       None \<Rightarrow> throw (TypeError ''Cannot read properties of undefined'')
     | Some a \<Rightarrow> await c)"

definition showInterstitialAd :: "string \<Rightarrow> jsval js" where
  "showInterstitialAd reason =
     and_then (getv isAdsDisabled) (\<lambda>disabled.
     if disabled then ret (Obj [(''shown'', Bool False)])
     else
       and_then Date_now (\<lambda>now.
       and_then (getv lastInterstitialTime) (\<lambda>last.
       if now - last < INTERSTITIAL_COOLDOWN then ret (Obj [(''shown'', Bool False)])
       else
         and_then (getv bridge) (\<lambda>b.
         case b of
           None \<Rightarrow> ret (Obj [(''shown'', Bool True)])
         | Some br \<Rightarrow>
             try_catch
               (and_then gameplayStop (\<lambda>_.
                and_then (advertisement_call br ShowInterstitial) (\<lambda>_.
                and_then Date_now (\<lambda>t.
                and_then (setv (\<lambda>s. s\<lparr>lastInterstitialTime := t\<rparr>)) (\<lambda>_.
                and_then gameplayStart (\<lambda>_.
                ret (Obj [(''shown'', Bool True)])))))))
               (\<lambda>error.
                  and_then gameplayStart (\<lambda>_.
                  ret (Obj [(''shown'', Bool False)])))))))"

definition showRewardedAd :: "string \<Rightarrow> jsval js" where
  "showRewardedAd reason =
     and_then (getv bridge) (\<lambda>b.
     case b of
       None \<Rightarrow> ret (Obj [(''rewarded'', Bool True)])
     | Some br \<Rightarrow>
         try_catch
           (and_then gameplayStop (\<lambda>_.
            and_then (advertisement_call br ShowRewarded) (\<lambda>_.
            and_then gameplayStart (\<lambda>_.
            ret (Obj [(''rewarded'', Bool True)])))))
           (\<lambda>error.
              and_then gameplayStart (\<lambda>_.
              ret (Obj [(''rewarded'', Bool False)]))))"

definition showShopRewardedAd :: "jsval js" where
  "showShopRewardedAd =
     and_then Date_now (\<lambda>now.
     and_then (getv lastShopRewardedTime) (\<lambda>last.
     let timeSinceLastAd = now - last in
     if timeSinceLastAd < SHOP_REWARDED_COOLDOWN then
       (let remainingTime = Math_ceil_div (SHOP_REWARDED_COOLDOWN - timeSinceLastAd) 1000
        in ret (Obj [(''rewarded'', Bool False), (''cooldown'', Bool True),
                     (''remainingTime'', Num remainingTime)]))
     else
       and_then (showRewardedAd ''shop_coins'') (\<lambda>result.
       and_then
         (if truthy (get_prop result ''rewarded'') then
            and_then Date_now (\<lambda>t. setv (\<lambda>s. s\<lparr>lastShopRewardedTime := t\<rparr>))
          else ret ())
         (\<lambda>_. ret (Obj [(''rewarded'', get_prop result ''rewarded''), (''cooldown'', Bool False),
                        (''remainingTime'', Num 0)])))))"

definition getShopRewardedCooldown :: "jsval js" where
  "getShopRewardedCooldown =
     and_then Date_now (\<lambda>now.
     and_then (getv lastShopRewardedTime) (\<lambda>last.
     let timeSinceLastAd = now - last in
     if timeSinceLastAd \<ge> SHOP_REWARDED_COOLDOWN then ret (Num 0)
     else ret (Num (Math_ceil_div (SHOP_REWARDED_COOLDOWN - timeSinceLastAd) 1000))))"

subsection \<open>savePlayerData\<close>

text \<open>One \<open>if (data.f !== undefined) savePromises.push(vkBridge.send(...))\<close>: the
  call is made at once; a promise that will reject is only noticed by \<open>Promise.all\<close>.\<close>

definition push_field ::
  "jsval \<Rightarrow> string \<Rightarrow> string \<Rightarrow> (jsval \<Rightarrow> string js) \<Rightarrow> reply list \<Rightarrow> (reply list) js" where
  "push_field data field key render savePromises =
     and_then (member data field) (\<lambda>v.
     if v \<noteq> Undefined then
       and_then (render v) (\<lambda>str.
       and_then (invoke (VkSend ''VKWebAppStorageSet'' (Obj [(''key'', Str key), (''value'', Str str)]))) (\<lambda>p.
       case p of
         Throws e \<Rightarrow> throw e
       | _ \<Rightarrow> ret (savePromises @ [p])))
     else ret savePromises)"

fun Promise_all :: "reply list \<Rightarrow> unit js" where
  "Promise_all [] = ret ()"
| "Promise_all (Rejects e # ps) = throw e"
| "Promise_all (p # ps) = Promise_all ps"

definition String_of :: "jsval \<Rightarrow> string js" where
  "String_of v = ToString v"

definition isVK :: "sdk_state \<Rightarrow> bool" where
  "isVK s = (vkBridge s \<noteq> None \<and> (case bridge s of None \<Rightarrow> False | Some br \<Rightarrow> platform_id br = ''vk''))"

text \<open>The block under \<open>if (vkBridge && bridge && bridge.platform.id === 'vk')\<close>:
  \<open>Some v\<close> when it returns \<open>v\<close>, \<open>None\<close> when control falls through.\<close>

definition savePlayerData_vk :: "jsval \<Rightarrow> (jsval option) js" where
  "savePlayerData_vk data =
     try_catch
       (and_then (push_field data ''coins'' ''gameCoins'' String_of []) (\<lambda>p1.
        and_then (push_field data ''hints'' ''gameHints'' String_of p1) (\<lambda>p2.
        and_then (push_field data ''undos'' ''gameUndos'' String_of p2) (\<lambda>p3.
        and_then (push_field data ''maxLevel'' ''gameMaxLevel'' String_of p3) (\<lambda>p4.
        and_then (push_field data ''noAds'' ''gameNoAds''
                    (\<lambda>v. ret (if truthy v then ''1'' else ''0'')) p4) (\<lambda>savePromises.
        and_then (Promise_all savePromises) (\<lambda>_.
        ret (Some (Bool True)))))))))
       (\<lambda>error. ret None)"

definition savePlayerData :: "jsval \<Rightarrow> jsval js" where
  "savePlayerData data =
     and_then (getv isVK) (\<lambda>vk.
     and_then (if vk then savePlayerData_vk data else ret None) (\<lambda>returned.
     case returned of
       Some v \<Rightarrow> ret v
     | None \<Rightarrow>
         and_then (getv bridge) (\<lambda>b.
         case b of
           None \<Rightarrow>
             try_catch
               (and_then (builtin (\<lambda>w. JSON_stringify w data)) (\<lambda>json.
                and_then (localStorage_setItem ''cloudSave'' json) (\<lambda>_.
                ret (Bool True))))
               (\<lambda>error. ret (Bool False))
         | Some br \<Rightarrow>
             try_catch
               (and_then (await (StorageSet data)) (\<lambda>_. ret (Bool True)))
               (\<lambda>error. ret (Bool False)))))"

subsection \<open>loadPlayerData\<close>

fun forEach :: "jsval list \<Rightarrow> (jsval \<Rightarrow> 'a \<Rightarrow> 'a js) \<Rightarrow> 'a \<Rightarrow> 'a js" where
  "forEach [] f acc = ret acc"
| "forEach (x # xs) f acc = and_then (f x acc) (forEach xs f)"

text \<open>The callback of \<open>result.keys.forEach\<close>; \<open>data\<close> is the object being filled.\<close>

definition parse_item :: "(jsval \<Rightarrow> jsval) \<Rightarrow> jsval \<Rightarrow> (string \<times> jsval) list \<Rightarrow> ((string \<times> jsval) list) js" where
  "parse_item parseInt item data =
     and_then (member item ''key'') (\<lambda>key.
     let val = get_prop item ''value'' in
     if key = Str ''gameCoins'' \<and> truthy val then
       ret (AList.update ''coins'' (parseInt val) data)
     else if key = Str ''gameHints'' \<and> truthy val then
       ret (AList.update ''hints'' (parseInt val) data)
     else if key = Str ''gameUndos'' \<and> truthy val then
       ret (AList.update ''undos'' (parseInt val) data)
     else if key = Str ''gameMaxLevel'' \<and> truthy val then
       ret (AList.update ''maxLevel'' (parseInt val) data)
     else if key = Str ''gameNoAds'' \<and> truthy val then
       ret (AList.update ''noAds'' (Bool (val = Str ''1'')) data)
     else ret data)"

text \<open>
  \<open>if (result.keys) result.keys.forEach(...)\<close>. When the answer is itself an array,
  \<open>result.keys\<close> is the method \<open>Array.prototype.keys\<close>: it is truthy and has no
  \<open>forEach\<close>, so the call throws a TypeError. Of the primitives and plain objects none
  inherits a property named \<open>keys\<close>.
\<close>

definition parse_vk_result :: "jsval \<Rightarrow> ((string \<times> jsval) list) js" where
  "parse_vk_result result =
     and_then (builtin parseInt10) (\<lambda>parseInt.
     case result of
       Arr elems \<Rightarrow> throw (TypeError ''result.keys.forEach is not a function'')
     | _ \<Rightarrow>
         and_then (member result ''keys'') (\<lambda>keys.
         if truthy keys then
           (case keys of
              Arr items \<Rightarrow> forEach items (parse_item parseInt) []
            | _ \<Rightarrow> throw (TypeError ''result.keys.forEach is not a function''))
         else ret []))"

definition vk_storage_keys :: jsval where
  "vk_storage_keys = Obj [(''keys'', Arr [Str ''gameCoins'', Str ''gameHints'', Str ''gameUndos'',
                                          Str ''gameMaxLevel'', Str ''gameNoAds''])]"

text \<open>The object built from the legacy local values.\<close>

definition syncData_of :: "(jsval \<Rightarrow> jsval) \<Rightarrow> jsval \<Rightarrow> jsval \<Rightarrow> (string \<times> jsval) list" where
  "syncData_of parseInt localCoins localMaxLevel =
     (let syncData = [];
          syncData = (if truthy localCoins then AList.update ''coins'' (parseInt localCoins) syncData
                      else syncData);
          syncData = (if truthy localMaxLevel then AList.update ''maxLevel'' (parseInt localMaxLevel) syncData
                      else syncData)
      in syncData)"

definition loadPlayerData_vk :: "(jsval option) js" where
  "loadPlayerData_vk =
     try_catch
       (and_then (await (VkSend ''VKWebAppStorageGet'' vk_storage_keys)) (\<lambda>result.
        and_then (parse_vk_result result) (\<lambda>data.
        if data = [] then
          and_then (localStorage_getItem ''gameCoins'') (\<lambda>localCoins.
          and_then (localStorage_getItem ''maxLevel'') (\<lambda>localMaxLevel.
          if truthy localCoins \<or> truthy localMaxLevel then
            and_then (builtin parseInt10) (\<lambda>parseInt.
            let syncData = syncData_of parseInt localCoins localMaxLevel in
            and_then (savePlayerData (Obj syncData)) (\<lambda>_.
            ret (Some (Obj syncData))))
          else ret (Some (Obj data))))
        else ret (Some (Obj data)))))
       (\<lambda>error. ret None)"

definition loadPlayerData :: "jsval js" where
  "loadPlayerData =
     and_then (getv isVK) (\<lambda>vk.
     and_then (if vk then loadPlayerData_vk else ret None) (\<lambda>returned.
     case returned of
       Some v \<Rightarrow> ret v
     | None \<Rightarrow>
         and_then (getv bridge) (\<lambda>b.
         case b of
           None \<Rightarrow>
             try_catch
               (and_then (localStorage_getItem ''cloudSave'') (\<lambda>saved.
                case saved of
                  Str str \<Rightarrow>
                    if truthy saved then
                      and_then (builtin (\<lambda>w. JSON_parse w str)) (\<lambda>parsed.
                      case parsed of Return v \<Rightarrow> ret v | Throw e \<Rightarrow> throw e)
                    else ret (Obj [])
                | _ \<Rightarrow> ret (Obj [])))
               (\<lambda>error. ret (Obj []))
         | Some br \<Rightarrow>
             try_catch
               (and_then (await StorageGet) (\<lambda>data.
                ret (if truthy data then data else Obj [])))
               (\<lambda>error. ret (Obj [])))))"

subsection \<open>Purchases, flags, platform\<close>

definition makePurchase :: "jsval \<Rightarrow> jsval js" where
  "makePurchase productId =
     and_then (getv bridge) (\<lambda>b.
     case b of
       None \<Rightarrow> ret (Obj [(''success'', Bool True), (''bonuses'', Obj [])])
     | Some br \<Rightarrow>
         try_catch
           (and_then (await (Purchase (Obj [(''id'', productId)]))) (\<lambda>result.
            ret (Obj [(''success'', Bool True), (''bonuses'', result)])))
           (\<lambda>error.
              and_then (member error ''message'') (\<lambda>message.
              ret (Obj [(''success'', Bool False), (''error'', message)]))))"

definition isAdsDisabledByPurchase :: "bool js" where
  "isAdsDisabledByPurchase = getv isAdsDisabled"

definition setAdsDisabled :: "bool \<Rightarrow> unit js" where
  "setAdsDisabled disabled = setv (\<lambda>s. s\<lparr>isAdsDisabled := disabled\<rparr>)"

definition isVKPlatform :: "bool js" where
  "isVKPlatform =
     and_then (getv bridge) (\<lambda>b.
     case b of
       None \<Rightarrow> ret False
     | Some br \<Rightarrow> ret (platform_id br = ''vk''))"

subsection \<open>showStickyBanner, openVKGroup, shareVK\<close>

text \<open>The inner \<open>try\<close> around the VK banner: \<open>Some v\<close> when it returns \<open>v\<close>.\<close>

definition showStickyBanner_vk :: "(jsval option) js" where
  "showStickyBanner_vk =
     and_then (getv vkBridge) (\<lambda>v.
     case v of
       Some _ \<Rightarrow>
         try_catch
           (and_then (await (VkSend ''VKWebAppShowBannerAd'' (Obj [(''banner_location'', Str ''bottom'')]))) (\<lambda>result.
            ret (Some (Bool True))))
           (\<lambda>vkError.
              and_then (member vkError ''error_data'') (\<lambda>error_data.
              and_then (if truthy error_data then member error_data ''error_code'' else ret error_data) (\<lambda>_.
              ret None)))
     | None \<Rightarrow> ret None)"

definition showStickyBanner :: "jsval js" where
  "showStickyBanner =
     and_then (getv bridge) (\<lambda>b.
     case b of
       None \<Rightarrow> ret (Bool False)
     | Some br \<Rightarrow>
         and_then isVKPlatform (\<lambda>vk.
         if \<not> vk then ret (Bool False)
         else
           try_catch
             (and_then showStickyBanner_vk (\<lambda>returned.
              case returned of
                Some v \<Rightarrow> ret v
              | None \<Rightarrow>
                  (case advertisement br of
                     Some a \<Rightarrow>
                       if showSticky_is_function a then
                         and_then (await ShowSticky) (\<lambda>_. ret (Bool True))
                       else ret (Bool False)
                   | None \<Rightarrow> ret (Bool False))))
             (\<lambda>error. ret (Bool False))))"

definition openVKGroup :: "unit js" where
  "openVKGroup =
     and_then (getv bridge) (\<lambda>b.
     and_then isVKPlatform (\<lambda>vk.
     if b = None \<or> \<not> vk then ret ()
     else
       try_catch
         (call_sync (JoinCommunity (Obj [(''groupId'', Num 217329390)])))
         (\<lambda>error.
            try_catch
              (call_sync (WindowOpen ''https://vk.com/public217329390'' ''_blank''))
              (\<lambda>e. ret ()))))"

definition shareVK :: "unit js" where
  "shareVK =
     and_then (getv bridge) (\<lambda>b.
     and_then isVKPlatform (\<lambda>vk.
     if b = None \<or> \<not> vk then ret ()
     else try_catch (call_sync Share) (\<lambda>error. ret ())))"

definition isYandexSDKReady :: "bool js" where
  "isYandexSDKReady = getv isInitialized"

definition getYSDK :: "(bridge_obj option) js" where
  "getYSDK = getv bridge"

section \<open>Observing a run\<close>

text \<open>The three parts of what a call yields: how it completed, the module state and the
  host afterwards.\<close>

definition result_of :: "'a outcome \<times> sdk_state \<times> world \<Rightarrow> 'a outcome" where
  "result_of r = fst r"

definition state_of :: "'a outcome \<times> sdk_state \<times> world \<Rightarrow> sdk_state" where
  "state_of r = fst (snd r)"

definition world_of :: "'a outcome \<times> sdk_state \<times> world \<Rightarrow> world" where
  "world_of r = snd (snd r)"

text \<open>The external calls made between the host \<open>w\<close> and the later host \<open>w'\<close>.\<close>

definition new_calls :: "world \<Rightarrow> world \<Rightarrow> call list" where
  "new_calls w w' = drop (length (calls w)) (calls w')"

text \<open>What \<open>Date.now()\<close> would return if it were the next call.\<close>

definition time_now :: "world \<Rightarrow> int" where
  "time_now w = clock w (length (calls w))"

text \<open>The value \<open>localStorage.getItem(k)\<close> returns.\<close>

definition local_value :: "world \<Rightarrow> string \<Rightarrow> jsval" where
  "local_value w k = (case localStorage w k of None \<Rightarrow> Null | Some v \<Rightarrow> Str v)"

text \<open>An awaited call fails when it throws or its promise rejects; a call that is not
  awaited fails only when it throws.\<close>

definition is_failure :: "reply \<Rightarrow> bool" where
  "is_failure r = (case r of Returns v \<Rightarrow> False | Throws e \<Rightarrow> True | Rejects e \<Rightarrow> True)"

definition throws :: "reply \<Rightarrow> bool" where
  "throws r = (case r of Throws e \<Rightarrow> True | _ \<Rightarrow> False)"

text \<open>\<open>d\<close> is JSON-serializable: \<open>JSON.stringify(d)\<close> is a string that \<open>JSON.parse\<close>
  turns back into \<open>d\<close>.\<close>

definition json_serializable :: "world \<Rightarrow> jsval \<Rightarrow> bool" where
  "json_serializable w d = (case JSON_stringify w d of
       Str j \<Rightarrow> j \<noteq> [] \<and> JSON_parse w j = Return d
     | _ \<Rightarrow> False)"

text \<open>Calling the same function \<open>n\<close> times in a row.\<close>

fun repeat_call :: "nat \<Rightarrow> 'a js \<Rightarrow> sdk_state \<times> world \<Rightarrow> sdk_state \<times> world" where
  "repeat_call 0 m \<sigma> = \<sigma>"
| "repeat_call (Suc n) m \<sigma> = repeat_call n m (snd (m \<sigma>))"

section \<open>Example hosts and module states\<close>

text \<open>Built-ins that are right on the few values the examples use.\<close>

definition demo_parseInt :: "jsval \<Rightarrow> jsval" where
  "demo_parseInt v = (if v = Str ''120'' then Num 120 else if v = Str ''7'' then Num 7 else NaN)"

definition demo_String :: "jsval \<Rightarrow> string outcome" where
  "demo_String v = Return (if v = Num 120 then ''120'' else if v = Num 7 then ''7'' else ''NaN'')"

definition five_coins :: jsval where
  "five_coins = Obj [(''coins'', Num 5)]"

definition five_coins_json :: string where
  \<open>five_coins_json = ''{"coins":5}''\<close>

definition demo_stringify :: "jsval \<Rightarrow> jsval" where
  \<open>demo_stringify v = (if v = Obj [(''coins'', Num 5)] then Str ''{"coins":5}'' else Undefined)\<close>

definition demo_parse :: "string \<Rightarrow> jsval outcome" where
  \<open>demo_parse str = (if str = ''{"coins":5}'' then Return (Obj [(''coins'', Num 5)])
                      else Throw (Str ''SyntaxError''))\<close>

text \<open>A host where no bridge ever appears, every call succeeds with \<open>undefined\<close>, the
  storage is empty and the clock starts at 1000000 ms.\<close>

definition host0 :: world where
  "host0 = \<lparr> calls = [], answers = (\<lambda>k c. Returns Undefined), clock = (\<lambda>k. 1000000 + int k),
     window_bridge = (\<lambda>k. NotDefined), window_vkBridge = (\<lambda>k. NotDefined),
     localStorage = Map.empty, parseInt10 = demo_parseInt, String_fn = demo_String,
     JSON_stringify = demo_stringify, JSON_parse = demo_parse \<rparr>"

definition web_bridge :: bridge_obj where
  "web_bridge = \<lparr> platform_id = ''yandex'', platform_language = Str ''ru'',
     advertisement = Some (Advertisement True) \<rparr>"

definition with_bridge :: sdk_state where
  "with_bridge = initial_state\<lparr>bridge := Some web_bridge, isInitialized := True\<rparr>"

definition ads_off :: sdk_state where
  "ads_off = with_bridge\<lparr>isAdsDisabled := True\<rparr>"

definition shown_recently :: sdk_state where
  "shown_recently = with_bridge\<lparr>lastInterstitialTime := 999000\<rparr>"

definition rewarded_recently :: sdk_state where
  "rewarded_recently = with_bridge\<lparr>lastShopRewardedTime := 987654\<rparr>"

text \<open>Hosts where the advertisements have no fill, where \<open>initialize()\<close> fails, where the
  storage quota is exceeded.\<close>

definition failing_ads :: world where
  "failing_ads = host0\<lparr>answers := (\<lambda>k c. if c = ShowInterstitial \<or> c = ShowRewarded
                                         then Rejects (Str ''no fill'') else Returns Undefined)\<rparr>"

definition failing_init :: world where
  "failing_init = host0\<lparr>window_bridge := (\<lambda>k. Holds web_bridge),
     answers := (\<lambda>k c. if c = Initialize then Rejects (Str ''init failed'') else Returns Undefined)\<rparr>"

definition quota_full :: world where
  "quota_full = host0\<lparr>answers := (\<lambda>k c. case c of
       LocalStorage_setItem key str \<Rightarrow> Throws (Str ''QuotaExceededError'')
     | _ \<Rightarrow> Returns Undefined)\<rparr>"

text \<open>A host whose payment call rejects without a reason, as \<open>Promise.reject()\<close> does.\<close>

definition rejecting_payments :: world where
  "rejecting_payments = host0\<lparr>answers := (\<lambda>k c. case c of
       Purchase product \<Rightarrow> Rejects Undefined
     | _ \<Rightarrow> Returns Undefined)\<rparr>"

text \<open>A VK host whose cloud storage is still empty, in a browser that holds the legacy
  local values.\<close>

definition vk_game_bridge :: bridge_obj where
  "vk_game_bridge = \<lparr> platform_id = ''vk'', platform_language = Str ''ru'',
     advertisement = Some (Advertisement False) \<rparr>"

definition on_vk :: sdk_state where
  "on_vk = initial_state\<lparr>bridge := Some vk_game_bridge, vkBridge := Some WindowVkBridge,
     isInitialized := True\<rparr>"

definition empty_vk_answer :: jsval where
  "empty_vk_answer = Obj [(''keys'', Arr [Obj [(''key'', Str ''gameCoins''), (''value'', Str [])],
                                           Obj [(''key'', Str ''gameMaxLevel''), (''value'', Str [])]])]"

definition vk_empty_cloud :: world where
  "vk_empty_cloud = host0\<lparr>
     answers := (\<lambda>k c. case c of
         VkSend method params \<Rightarrow>
           if method = ''VKWebAppStorageGet''
           then Returns empty_vk_answer
           else Returns (Obj [(''result'', Bool True)])
       | _ \<Rightarrow> Returns Undefined),
     localStorage := [''gameCoins'' \<mapsto> ''120'', ''maxLevel'' \<mapsto> ''7'']\<rparr>"

section \<open>Properties\<close>

lemmas js_defs = ret_def throw_def and_then_def try_catch_def getv_def setv_def builtin_def
  Date_now_def invoke_def await_def call_sync_def log_call_def

subsection \<open>Interstitial cooldown\<close>

lemma gameplayStop_run:
  "gameplayStop (s, w) = (Return (), (s, case bridge s of None \<Rightarrow> w | Some b \<Rightarrow> log_call (SendMessage ''gameplay_stopped'') w))"
  by (simp add: gameplayStop_def js_defs split: option.splits reply.splits)

lemma gameplayStart_run:
  "gameplayStart (s, w) = (Return (), (s, case bridge s of None \<Rightarrow> w | Some b \<Rightarrow> log_call (SendMessage ''gameplay_started'') w))"
  by (simp add: gameplayStart_def js_defs split: option.splits reply.splits)

lemma showInterstitialAd_blocked:
  "time_now w - lastInterstitialTime s < INTERSTITIAL_COOLDOWN \<Longrightarrow>
   showInterstitialAd reason (s, w) =
     (Return (Obj [(''shown'', Bool False)]), (s, if isAdsDisabled s then w else log_call DateNow w))"
  by (simp add: showInterstitialAd_def js_defs time_now_def)

lemma showInterstitialAd_disabled:
  "isAdsDisabled s \<Longrightarrow>
   showInterstitialAd reason (s, w) = (Return (Obj [(''shown'', Bool False)]), (s, w))"
  by (simp add: showInterstitialAd_def js_defs)

lemma showInterstitialAd_dev:
  "\<not> isAdsDisabled s \<Longrightarrow> bridge s = None \<Longrightarrow>
   \<not> time_now w - lastInterstitialTime s < INTERSTITIAL_COOLDOWN \<Longrightarrow>
   showInterstitialAd reason (s, w) = (Return (Obj [(''shown'', Bool True)]), (s, log_call DateNow w))"
  by (simp add: showInterstitialAd_def js_defs time_now_def)

lemma showInterstitialAd_allowed:
  "\<not> isAdsDisabled s \<Longrightarrow> bridge s = Some br \<Longrightarrow> advertisement br = Some a \<Longrightarrow>
   \<not> time_now w - lastInterstitialTime s < INTERSTITIAL_COOLDOWN \<Longrightarrow>
   showInterstitialAd reason (s, w) =
     (case answers w (length (calls w) + 2) ShowInterstitial of
        Returns v \<Rightarrow> (Return (Obj [(''shown'', Bool True)]),
           (s\<lparr>lastInterstitialTime := clock w (length (calls w) + 3)\<rparr>,
            w\<lparr>calls := calls w @ [DateNow, SendMessage ''gameplay_stopped'', ShowInterstitial, DateNow, SendMessage ''gameplay_started'']\<rparr>))
      | _ \<Rightarrow> (Return (Obj [(''shown'', Bool False)]),
           (s, w\<lparr>calls := calls w @ [DateNow, SendMessage ''gameplay_stopped'', ShowInterstitial, SendMessage ''gameplay_started'']\<rparr>)))"
  by (simp add: showInterstitialAd_def js_defs time_now_def gameplayStop_run gameplayStart_run advertisement_call_def
      eval_nat_numeral split: reply.splits)

lemmas run_defs = result_of_def state_of_def world_of_def new_calls_def

text \<open>
  C1 (as amended). A call made less than 90000 ms after \<open>lastInterstitialTime\<close> returns
  \<open>{shown:false}\<close>, does not invoke \<open>advertisement.showInterstitial\<close> and leaves the
  module state as it was. A call made at least 90000 ms after it, with ads not disabled and
  a bridge that has an advertisement module, invokes \<open>advertisement.showInterstitial\<close>;
  when that succeeds the call returns \<open>{shown:true}\<close> and \<open>lastInterstitialTime\<close> is the
  time read after the ad, so that every later call made less than 90000 ms after that time
  returns \<open>{shown:false}\<close> without invoking it. With ads disabled the call returns
  \<open>{shown:false}\<close> and touches nothing; with no bridge it returns \<open>{shown:true}\<close>
  and leaves \<open>lastInterstitialTime\<close> unchanged.
\<close>

theorem showInterstitialAd_cooldown:
  fixes s :: sdk_state and w :: world and reason :: string
  defines "elapsed \<equiv> time_now w - lastInterstitialTime s"
      and "run \<equiv> showInterstitialAd reason (s, w)"
      and "n \<equiv> length (calls w)"
  shows
  "(elapsed < INTERSTITIAL_COOLDOWN \<longrightarrow>
      result_of run = Return (Obj [(''shown'', Bool False)]) \<and> state_of run = s
      \<and> ShowInterstitial \<notin> set (new_calls w (world_of run))) \<and>
   (INTERSTITIAL_COOLDOWN \<le> elapsed \<and> \<not> isAdsDisabled s \<and> bridge s = Some br
      \<and> advertisement br = Some a \<longrightarrow>
      take 3 (new_calls w (world_of run)) = [DateNow, SendMessage ''gameplay_stopped'', ShowInterstitial]
      \<and> (\<forall>v. answers w (n + 2) ShowInterstitial = Returns v \<longrightarrow>
            result_of run = Return (Obj [(''shown'', Bool True)])
          \<and> lastInterstitialTime (state_of run) = clock w (n + 3)
          \<and> (\<forall>reason' w2. time_now w2 - clock w (n + 3) < INTERSTITIAL_COOLDOWN \<longrightarrow>
                result_of (showInterstitialAd reason' (state_of run, w2)) = Return (Obj [(''shown'', Bool False)])
              \<and> ShowInterstitial \<notin> set (new_calls w2 (world_of (showInterstitialAd reason' (state_of run, w2))))))) \<and>
   (isAdsDisabled s \<longrightarrow> run = (Return (Obj [(''shown'', Bool False)]), (s, w))) \<and>
   (INTERSTITIAL_COOLDOWN \<le> elapsed \<and> \<not> isAdsDisabled s \<and> bridge s = None \<longrightarrow>
      run = (Return (Obj [(''shown'', Bool True)]), (s, log_call DateNow w)))"
  (is "?blocked \<and> ?allowed \<and> ?disabled \<and> ?dev")
proof (intro conjI)
  show ?blocked
    unfolding elapsed_def run_def
    by (simp add: showInterstitialAd_blocked run_defs log_call_def)
next
  show ?allowed
  proof (intro impI)
    assume h: "INTERSTITIAL_COOLDOWN \<le> elapsed \<and> \<not> isAdsDisabled s \<and> bridge s = Some br
      \<and> advertisement br = Some a"
    have blocked: "\<And>s' reason' w2. time_now w2 - lastInterstitialTime s' < INTERSTITIAL_COOLDOWN \<Longrightarrow>
          result_of (showInterstitialAd reason' (s', w2)) = Return (Obj [(''shown'', Bool False)])
        \<and> ShowInterstitial \<notin> set (new_calls w2 (world_of (showInterstitialAd reason' (s', w2))))"
      by (simp add: showInterstitialAd_blocked run_defs log_call_def)
    from h have "\<not> elapsed < INTERSTITIAL_COOLDOWN" by simp
    with h have eq: "run =
       (case answers w (n + 2) ShowInterstitial of
          Returns v \<Rightarrow> (Return (Obj [(''shown'', Bool True)]),
             (s\<lparr>lastInterstitialTime := clock w (n + 3)\<rparr>,
              w\<lparr>calls := calls w @ [DateNow, SendMessage ''gameplay_stopped'', ShowInterstitial, DateNow, SendMessage ''gameplay_started'']\<rparr>))
        | _ \<Rightarrow> (Return (Obj [(''shown'', Bool False)]),
             (s, w\<lparr>calls := calls w @ [DateNow, SendMessage ''gameplay_stopped'', ShowInterstitial, SendMessage ''gameplay_started'']\<rparr>)))"
      unfolding elapsed_def run_def n_def by (simp add: showInterstitialAd_allowed)
    show "take 3 (new_calls w (world_of run)) = [DateNow, SendMessage ''gameplay_stopped'', ShowInterstitial]
      \<and> (\<forall>v. answers w (n + 2) ShowInterstitial = Returns v \<longrightarrow>
            result_of run = Return (Obj [(''shown'', Bool True)])
          \<and> lastInterstitialTime (state_of run) = clock w (n + 3)
          \<and> (\<forall>reason' w2. time_now w2 - clock w (n + 3) < INTERSTITIAL_COOLDOWN \<longrightarrow>
                result_of (showInterstitialAd reason' (state_of run, w2)) = Return (Obj [(''shown'', Bool False)])
              \<and> ShowInterstitial \<notin> set (new_calls w2 (world_of (showInterstitialAd reason' (state_of run, w2))))))"
    proof (cases "answers w (n + 2) ShowInterstitial")
      case (Returns v)
      with eq have r: "run = (Return (Obj [(''shown'', Bool True)]),
             (s\<lparr>lastInterstitialTime := clock w (n + 3)\<rparr>,
              w\<lparr>calls := calls w @ [DateNow, SendMessage ''gameplay_stopped'', ShowInterstitial, DateNow, SendMessage ''gameplay_started'']\<rparr>))"
        by simp
      have st: "state_of run = s\<lparr>lastInterstitialTime := clock w (n + 3)\<rparr>"
        by (simp add: r state_of_def)
      show ?thesis
        using blocked [of _ "state_of run"]
        by (simp add: st) (simp add: r run_defs)
    next
      case (Throws e)
      with eq show ?thesis by (simp add: run_defs)
    next
      case (Rejects e)
      with eq show ?thesis by (simp add: run_defs)
    qed
  qed
next
  show ?disabled
    unfolding run_def by (simp add: showInterstitialAd_disabled)
next
  show ?dev
    unfolding elapsed_def run_def by (simp add: showInterstitialAd_dev)
qed


lemmas demo_defs = host0_def web_bridge_def with_bridge_def initial_state_def ads_off_def
  shown_recently_def time_now_def INTERSTITIAL_COOLDOWN_def SHOP_REWARDED_COOLDOWN_def

theorem showInterstitialAd_cooldown_witness:
  "time_now host0 - lastInterstitialTime shown_recently < INTERSTITIAL_COOLDOWN
   \<and> result_of (showInterstitialAd ''level'' (shown_recently, host0)) = Return (Obj [(''shown'', Bool False)])
   \<and> INTERSTITIAL_COOLDOWN \<le> time_now host0 - lastInterstitialTime with_bridge
   \<and> \<not> isAdsDisabled with_bridge \<and> bridge with_bridge = Some web_bridge
   \<and> advertisement web_bridge = Some (Advertisement True)
   \<and> answers host0 (length (calls host0) + 2) ShowInterstitial = Returns Undefined
   \<and> result_of (showInterstitialAd ''level'' (with_bridge, host0)) = Return (Obj [(''shown'', Bool True)])
   \<and> lastInterstitialTime (state_of (showInterstitialAd ''level'' (with_bridge, host0))) = 1000003
   \<and> time_now (world_of (showInterstitialAd ''level'' (with_bridge, host0))) - 1000003 < INTERSTITIAL_COOLDOWN
   \<and> result_of (showInterstitialAd ''again''
        (state_of (showInterstitialAd ''level'' (with_bridge, host0)),
         world_of (showInterstitialAd ''level'' (with_bridge, host0)))) = Return (Obj [(''shown'', Bool False)])
   \<and> isAdsDisabled ads_off
   \<and> showInterstitialAd ''level'' (ads_off, host0) = (Return (Obj [(''shown'', Bool False)]), (ads_off, host0))
   \<and> bridge initial_state = None
   \<and> showInterstitialAd ''level'' (initial_state, host0) =
        (Return (Obj [(''shown'', Bool True)]), (initial_state, log_call DateNow host0))"
  using showInterstitialAd_cooldown [where s = shown_recently and w = host0 and reason = "''level''"]
    showInterstitialAd_cooldown [where s = with_bridge and w = host0 and reason = "''level''"
      and br = web_bridge and a = "Advertisement True"]
    showInterstitialAd_cooldown [where s = ads_off and w = host0 and reason = "''level''"]
    showInterstitialAd_cooldown [where s = initial_state and w = host0 and reason = "''level''"]
  by (simp add: demo_defs showInterstitialAd_def gameplayStop_def gameplayStart_def
      advertisement_call_def js_defs run_defs)

text \<open>
  C1 as stated fails: with ads disabled, a call made 1000000 ms after
  \<open>lastInterstitialTime\<close> does not attempt the ad; with no bridge, a call returns
  \<open>{shown:true}\<close> and the call one millisecond later is not blocked.
\<close>

theorem showInterstitialAd_elapsed_not_attempted:
  "INTERSTITIAL_COOLDOWN \<le> time_now host0 - lastInterstitialTime ads_off
   \<and> showInterstitialAd ''level'' (ads_off, host0) = (Return (Obj [(''shown'', Bool False)]), (ads_off, host0))
   \<and> ShowInterstitial \<notin> set (new_calls host0 (world_of (showInterstitialAd ''level'' (ads_off, host0))))
   \<and> INTERSTITIAL_COOLDOWN \<le> time_now host0 - lastInterstitialTime initial_state
   \<and> showInterstitialAd ''level'' (initial_state, host0) =
        (Return (Obj [(''shown'', Bool True)]), (initial_state, log_call DateNow host0))
   \<and> time_now (log_call DateNow host0) - time_now host0 < INTERSTITIAL_COOLDOWN
   \<and> result_of (showInterstitialAd ''again'' (initial_state, log_call DateNow host0)) =
        Return (Obj [(''shown'', Bool True)])"
  by (simp add: demo_defs showInterstitialAd_def js_defs run_defs)

subsection \<open>Shop rewarded cooldown\<close>

lemma Math_ceil_div_ceiling: "Math_ceil_div x 1000 = \<lceil>real_of_int x / 1000\<rceil>"
proof -
  have "\<lceil>real_of_int x / 1000\<rceil> = - \<lfloor>real_of_int (- x) / real_of_int 1000\<rfloor>"
    by (simp add: ceiling_def)
  also have "\<dots> = - ((- x) div 1000)"
    by (simp only: floor_divide_of_int_eq)
  finally show ?thesis by (simp add: Math_ceil_div_def)
qed

lemma Math_ceil_div_pos: "0 < x \<Longrightarrow> 0 < Math_ceil_div x 1000"
  by (simp add: Math_ceil_div_def)

lemma showRewardedAd_run:
  "showRewardedAd reason (s, w) =
     (case bridge s of
        None \<Rightarrow> (Return (Obj [(''rewarded'', Bool True)]), (s, w))
      | Some br \<Rightarrow>
          (case advertisement br of
             None \<Rightarrow> (Return (Obj [(''rewarded'', Bool False)]),
                (s, w\<lparr>calls := calls w @ [SendMessage ''gameplay_stopped'', SendMessage ''gameplay_started'']\<rparr>))
           | Some a \<Rightarrow>
               (case answers w (length (calls w) + 1) ShowRewarded of
                  Returns v \<Rightarrow> (Return (Obj [(''rewarded'', Bool True)]),
                    (s, w\<lparr>calls := calls w @ [SendMessage ''gameplay_stopped'', ShowRewarded, SendMessage ''gameplay_started'']\<rparr>))
                | _ \<Rightarrow> (Return (Obj [(''rewarded'', Bool False)]),
                    (s, w\<lparr>calls := calls w @ [SendMessage ''gameplay_stopped'', ShowRewarded, SendMessage ''gameplay_started'']\<rparr>)))))"
  by (simp add: showRewardedAd_def js_defs gameplayStop_run gameplayStart_run advertisement_call_def
      split: option.splits reply.splits)

lemma showRewardedAd_result:
  "\<exists>b w'. showRewardedAd reason (s, w) = (Return (Obj [(''rewarded'', Bool b)]), (s, w'))"
  by (auto simp: showRewardedAd_run split: option.splits reply.splits)

lemma showShopRewardedAd_blocked:
  "time_now w - lastShopRewardedTime s < SHOP_REWARDED_COOLDOWN \<Longrightarrow>
   showShopRewardedAd (s, w) =
     (Return (Obj [(''rewarded'', Bool False), (''cooldown'', Bool True),
        (''remainingTime'', Num (Math_ceil_div (SHOP_REWARDED_COOLDOWN - (time_now w - lastShopRewardedTime s)) 1000))]),
      (s, log_call DateNow w))"
  by (simp add: showShopRewardedAd_def js_defs time_now_def)

lemma showShopRewardedAd_allowed:
  assumes "\<not> time_now w - lastShopRewardedTime s < SHOP_REWARDED_COOLDOWN"
      and "showRewardedAd ''shop_coins'' (s, log_call DateNow w) = (Return (Obj [(''rewarded'', Bool b)]), (s, w'))"
  shows "showShopRewardedAd (s, w) =
     (Return (Obj [(''rewarded'', Bool b), (''cooldown'', Bool False), (''remainingTime'', Num 0)]),
      (if b then (s\<lparr>lastShopRewardedTime := time_now w'\<rparr>, log_call DateNow w') else (s, w')))"
  using assms
  by (simp add: showShopRewardedAd_def and_then_def ret_def getv_def setv_def Date_now_def
      time_now_def get_prop_def log_call_def)

text \<open>
  C2. A call to \<open>showShopRewardedAd\<close> made less than 600000 ms after
  \<open>lastShopRewardedTime\<close> returns \<open>{rewarded:false, cooldown:true, remainingTime}\<close> with
  \<open>remainingTime = ceil((600000 - elapsed) / 1000)\<close>, reads the clock and does nothing
  else. Otherwise it runs \<open>showRewardedAd('shop_coins')\<close> (which invokes
  \<open>advertisement.showRewarded\<close> when the bridge has one), returns its \<open>rewarded\<close> with
  \<open>cooldown:false, remainingTime:0\<close>, and sets \<open>lastShopRewardedTime\<close> to the time read
  after the ad exactly when the result is rewarded.
\<close>

theorem showShopRewardedAd_cooldown:
  fixes s :: sdk_state and w :: world
  defines "elapsed \<equiv> time_now w - lastShopRewardedTime s"
      and "run \<equiv> showShopRewardedAd (s, w)"
      and "ad \<equiv> showRewardedAd ''shop_coins'' (s, log_call DateNow w)"
  shows
  "(elapsed < SHOP_REWARDED_COOLDOWN \<longrightarrow>
      run = (Return (Obj [(''rewarded'', Bool False), (''cooldown'', Bool True),
                          (''remainingTime'', Num \<lceil>real_of_int (SHOP_REWARDED_COOLDOWN - elapsed) / 1000\<rceil>)]),
             (s, log_call DateNow w))
      \<and> ShowRewarded \<notin> set (new_calls w (world_of run))) \<and>
   (SHOP_REWARDED_COOLDOWN \<le> elapsed \<longrightarrow>
      (\<exists>b. result_of ad = Return (Obj [(''rewarded'', Bool b)])
          \<and> result_of run = Return (Obj [(''rewarded'', Bool b), (''cooldown'', Bool False),
                                          (''remainingTime'', Num 0)])
          \<and> state_of run = (if b then s\<lparr>lastShopRewardedTime := time_now (world_of ad)\<rparr> else s)
          \<and> world_of run = (if b then log_call DateNow (world_of ad) else world_of ad))) \<and>
   (SHOP_REWARDED_COOLDOWN \<le> elapsed \<and> bridge s = Some br \<and> advertisement br = Some a \<longrightarrow>
      ShowRewarded \<in> set (new_calls w (world_of run)))"
  (is "?blocked \<and> ?allowed \<and> ?attempted")
proof (intro conjI)
  show ?blocked
    unfolding elapsed_def run_def
    by (simp add: showShopRewardedAd_blocked Math_ceil_div_ceiling run_defs log_call_def)
next
  obtain b w' where ad_eq: "ad = (Return (Obj [(''rewarded'', Bool b)]), (s, w'))"
    unfolding ad_def using showRewardedAd_result by blast
  show ?allowed
  proof
    assume "SHOP_REWARDED_COOLDOWN \<le> elapsed"
    then have "\<not> time_now w - lastShopRewardedTime s < SHOP_REWARDED_COOLDOWN"
      by (simp add: elapsed_def)
    from showShopRewardedAd_allowed [OF this ad_eq [unfolded ad_def]]
    have "run = (Return (Obj [(''rewarded'', Bool b), (''cooldown'', Bool False), (''remainingTime'', Num 0)]),
      (if b then (s\<lparr>lastShopRewardedTime := time_now w'\<rparr>, log_call DateNow w') else (s, w')))"
      by (simp add: run_def)
    with ad_eq show "\<exists>b. result_of ad = Return (Obj [(''rewarded'', Bool b)])
          \<and> result_of run = Return (Obj [(''rewarded'', Bool b), (''cooldown'', Bool False),
                                          (''remainingTime'', Num 0)])
          \<and> state_of run = (if b then s\<lparr>lastShopRewardedTime := time_now (world_of ad)\<rparr> else s)
          \<and> world_of run = (if b then log_call DateNow (world_of ad) else world_of ad)"
      by (intro exI [of _ b]) (simp add: run_defs)
  qed
  show ?attempted
  proof
    assume h: "SHOP_REWARDED_COOLDOWN \<le> elapsed \<and> bridge s = Some br \<and> advertisement br = Some a"
    then have nb: "\<not> time_now w - lastShopRewardedTime s < SHOP_REWARDED_COOLDOWN"
      by (simp add: elapsed_def)
    from h have "ShowRewarded \<in> set (new_calls w (world_of ad))"
      unfolding ad_def by (simp add: showRewardedAd_run run_defs log_call_def split: reply.splits)
    with ad_eq have "ShowRewarded \<in> set (drop (length (calls w)) (calls w'))"
      by (simp add: run_defs)
    moreover have "run = (Return (Obj [(''rewarded'', Bool b), (''cooldown'', Bool False), (''remainingTime'', Num 0)]),
      (if b then (s\<lparr>lastShopRewardedTime := time_now w'\<rparr>, log_call DateNow w') else (s, w')))"
      using showShopRewardedAd_allowed [OF nb ad_eq [unfolded ad_def]] by (simp add: run_def)
    ultimately show "ShowRewarded \<in> set (new_calls w (world_of run))"
      by (auto simp: run_defs log_call_def)
  qed
qed

text \<open>
  C7. \<open>getShopRewardedCooldown\<close> returns 0 when at least 600000 ms have elapsed since
  \<open>lastShopRewardedTime\<close> and \<open>ceil((600000 - elapsed) / 1000)\<close> otherwise; it returns 0
  exactly when \<open>showShopRewardedAd\<close>, called at the same instant, answers
  \<open>cooldown:false\<close>; it leaves the module state as it was.
\<close>

theorem getShopRewardedCooldown_spec:
  fixes s :: sdk_state and w :: world
  defines "elapsed \<equiv> time_now w - lastShopRewardedTime s"
  shows
  "getShopRewardedCooldown (s, w) =
     (Return (Num (if SHOP_REWARDED_COOLDOWN \<le> elapsed then 0
                   else \<lceil>real_of_int (SHOP_REWARDED_COOLDOWN - elapsed) / 1000\<rceil>)),
      (s, log_call DateNow w))
   \<and> (result_of (getShopRewardedCooldown (s, w)) = Return (Num 0)) = (SHOP_REWARDED_COOLDOWN \<le> elapsed)
   \<and> (result_of (getShopRewardedCooldown (s, w)) = Return (Num 0)) =
       (\<exists>v. result_of (showShopRewardedAd (s, w)) = Return v \<and> get_prop v ''cooldown'' = Bool False)
   \<and> state_of (getShopRewardedCooldown (s, w)) = s"
proof -
  have run: "getShopRewardedCooldown (s, w) =
     (Return (Num (if SHOP_REWARDED_COOLDOWN \<le> elapsed then 0
                   else Math_ceil_div (SHOP_REWARDED_COOLDOWN - elapsed) 1000)),
      (s, log_call DateNow w))"
    by (simp add: getShopRewardedCooldown_def js_defs elapsed_def time_now_def)
  have zero: "(result_of (getShopRewardedCooldown (s, w)) = Return (Num 0)) = (SHOP_REWARDED_COOLDOWN \<le> elapsed)"
    using Math_ceil_div_pos [of "SHOP_REWARDED_COOLDOWN - elapsed"]
    by (auto simp: run result_of_def)
  have shop: "(\<exists>v. result_of (showShopRewardedAd (s, w)) = Return v \<and> get_prop v ''cooldown'' = Bool False)
      = (SHOP_REWARDED_COOLDOWN \<le> elapsed)"
  proof (cases "SHOP_REWARDED_COOLDOWN \<le> elapsed")
    case True
    obtain b w' where "showRewardedAd ''shop_coins'' (s, log_call DateNow w) = (Return (Obj [(''rewarded'', Bool b)]), (s, w'))"
      using showRewardedAd_result by blast
    with True show ?thesis
      by (simp add: showShopRewardedAd_allowed elapsed_def result_of_def get_prop_def)
  next
    case False
    then show ?thesis
      by (simp add: showShopRewardedAd_blocked elapsed_def result_of_def get_prop_def)
  qed
  show ?thesis
    by (simp add: zero shop) (simp add: run Math_ceil_div_ceiling state_of_def)
qed


theorem showShopRewardedAd_cooldown_witness:
  "time_now host0 - lastShopRewardedTime rewarded_recently < SHOP_REWARDED_COOLDOWN
   \<and> showShopRewardedAd (rewarded_recently, host0) =
        (Return (Obj [(''rewarded'', Bool False), (''cooldown'', Bool True), (''remainingTime'', Num 588)]),
         (rewarded_recently, log_call DateNow host0))
   \<and> SHOP_REWARDED_COOLDOWN \<le> time_now host0 - lastShopRewardedTime with_bridge
   \<and> bridge with_bridge = Some web_bridge
   \<and> advertisement web_bridge = Some (Advertisement True)
   \<and> result_of (showShopRewardedAd (with_bridge, host0)) =
        Return (Obj [(''rewarded'', Bool True), (''cooldown'', Bool False), (''remainingTime'', Num 0)])
   \<and> lastShopRewardedTime (state_of (showShopRewardedAd (with_bridge, host0))) = 1000004
   \<and> ShowRewarded \<in> set (new_calls host0 (world_of (showShopRewardedAd (with_bridge, host0))))"
proof -
  have blocked: "time_now host0 - lastShopRewardedTime rewarded_recently < SHOP_REWARDED_COOLDOWN"
    by (simp add: demo_defs rewarded_recently_def)
  have allowed: "SHOP_REWARDED_COOLDOWN \<le> time_now host0 - lastShopRewardedTime with_bridge
      \<and> bridge with_bridge = Some web_bridge \<and> advertisement web_bridge = Some (Advertisement True)"
    by (simp add: demo_defs)
  have ad: "showRewardedAd ''shop_coins'' (with_bridge, log_call DateNow host0) =
      (Return (Obj [(''rewarded'', Bool True)]),
       (with_bridge, host0\<lparr>calls := [DateNow, SendMessage ''gameplay_stopped'', ShowRewarded,
                                      SendMessage ''gameplay_started'']\<rparr>))"
    by (simp add: showRewardedAd_run demo_defs log_call_def)
  from showShopRewardedAd_cooldown [where s = rewarded_recently and w = host0] blocked
  have r1: "showShopRewardedAd (rewarded_recently, host0) =
        (Return (Obj [(''rewarded'', Bool False), (''cooldown'', Bool True), (''remainingTime'', Num 588)]),
         (rewarded_recently, log_call DateNow host0))"
    by (simp add: demo_defs rewarded_recently_def)
  from showShopRewardedAd_cooldown [where s = with_bridge and w = host0 and br = web_bridge
      and a = "Advertisement True"] allowed
  have r2: "(\<exists>b. result_of (showRewardedAd ''shop_coins'' (with_bridge, log_call DateNow host0)) =
            Return (Obj [(''rewarded'', Bool b)])
          \<and> result_of (showShopRewardedAd (with_bridge, host0)) =
              Return (Obj [(''rewarded'', Bool b), (''cooldown'', Bool False), (''remainingTime'', Num 0)])
          \<and> state_of (showShopRewardedAd (with_bridge, host0)) =
              (if b then with_bridge\<lparr>lastShopRewardedTime :=
                    time_now (world_of (showRewardedAd ''shop_coins'' (with_bridge, log_call DateNow host0)))\<rparr>
               else with_bridge)
          \<and> world_of (showShopRewardedAd (with_bridge, host0)) =
              (if b then log_call DateNow (world_of (showRewardedAd ''shop_coins'' (with_bridge, log_call DateNow host0)))
               else world_of (showRewardedAd ''shop_coins'' (with_bridge, log_call DateNow host0))))
      \<and> ShowRewarded \<in> set (new_calls host0 (world_of (showShopRewardedAd (with_bridge, host0))))"
    by blast
  from r2 have r3: "result_of (showShopRewardedAd (with_bridge, host0)) =
        Return (Obj [(''rewarded'', Bool True), (''cooldown'', Bool False), (''remainingTime'', Num 0)])
      \<and> lastShopRewardedTime (state_of (showShopRewardedAd (with_bridge, host0))) = 1000004"
  proof -
    from r2 obtain b where
      b1: "result_of (showRewardedAd ''shop_coins'' (with_bridge, log_call DateNow host0)) =
            Return (Obj [(''rewarded'', Bool b)])" and
      b2: "result_of (showShopRewardedAd (with_bridge, host0)) =
              Return (Obj [(''rewarded'', Bool b), (''cooldown'', Bool False), (''remainingTime'', Num 0)])" and
      b3: "state_of (showShopRewardedAd (with_bridge, host0)) =
              (if b then with_bridge\<lparr>lastShopRewardedTime :=
                    time_now (world_of (showRewardedAd ''shop_coins'' (with_bridge, log_call DateNow host0)))\<rparr>
               else with_bridge)"
      by blast
    from b1 have b: "b" by (simp add: ad result_of_def)
    have "time_now (world_of (showRewardedAd ''shop_coins'' (with_bridge, log_call DateNow host0))) = 1000004"
      by (simp add: ad world_of_def) (simp add: time_now_def host0_def)
    with b b2 b3 show ?thesis by simp
  qed
  from blocked allowed r1 r2 r3 show ?thesis by simp
qed

subsection \<open>Functions that act once\<close>

lemma sendGameReadyOnce_run:
  "sendGameReadyOnce (s, w) =
     (Return (),
      if gameReadySent s then (s, w)
      else (s\<lparr>gameReadySent := True\<rparr>,
            case bridge s of None \<Rightarrow> w | Some br \<Rightarrow> log_call (SendMessage ''game_ready'') w))"
  by (simp add: sendGameReadyOnce_def js_defs split: option.splits reply.splits)

lemma applyLanguageOnce_run:
  "applyLanguageOnce (s, w) =
     (Return (),
      if languageApplied s then (s, w)
      else (s\<lparr>languageApplied := True\<rparr>,
            case bridge s of
              None \<Rightarrow> w
            | Some br \<Rightarrow>
                (case answers w (length (calls w)) ImportLocalization of
                   Returns v \<Rightarrow> w\<lparr>calls := calls w @ [ImportLocalization,
                      SetLang (if platform_language br = Str ''ru'' \<or> \<not> truthy (platform_language br)
                               then ''ru'' else ''en'')]\<rparr>
                 | _ \<Rightarrow> log_call ImportLocalization w)))"
  by (simp add: applyLanguageOnce_def js_defs Let_def split: option.splits reply.splits)

lemma repeat_call_once:
  assumes "\<And>\<sigma>. snd (m (snd (m \<sigma>))) = snd (m \<sigma>)"
  shows "repeat_call (Suc n) m \<sigma> = snd (m \<sigma>)"
proof (induction n arbitrary: \<sigma>)
  case 0
  show ?case by simp
next
  case (Suc n)
  have "repeat_call (Suc (Suc n)) m \<sigma> = repeat_call (Suc n) m (snd (m \<sigma>))"
    by simp
  also have "\<dots> = snd (m (snd (m \<sigma>)))"
    by (rule Suc.IH)
  finally show ?case by (simp add: assms)
qed

lemma applyLanguageOnce_twice:
  "snd (applyLanguageOnce (snd (applyLanguageOnce \<sigma>))) = snd (applyLanguageOnce \<sigma>)"
  by (cases \<sigma>) (simp add: applyLanguageOnce_run)

lemma sendGameReadyOnce_twice:
  "snd (sendGameReadyOnce (snd (sendGameReadyOnce \<sigma>))) = snd (sendGameReadyOnce \<sigma>)"
  by (cases \<sigma>) (simp add: sendGameReadyOnce_run)

text \<open>
  C8. \<open>applyLanguageOnce\<close> and \<open>sendGameReadyOnce\<close> are idempotent: a call sets the
  flag; a call with the flag set returns at once with no effect; so \<open>n \<ge> 1\<close> calls in a
  row leave the module and the host exactly as one call does, and every call returns
  \<open>undefined\<close>. The first call performs the action: with a bridge, \<open>sendGameReadyOnce\<close>
  sends \<open>game_ready\<close> and \<open>applyLanguageOnce\<close> starts the import of the localization.
\<close>

theorem once_functions_idempotent:
  "(0 < n \<longrightarrow>
      repeat_call n applyLanguageOnce (s, w) = snd (applyLanguageOnce (s, w))
    \<and> repeat_call n sendGameReadyOnce (s, w) = snd (sendGameReadyOnce (s, w)))
   \<and> result_of (applyLanguageOnce (s, w)) = Return ()
   \<and> result_of (sendGameReadyOnce (s, w)) = Return ()
   \<and> languageApplied (state_of (applyLanguageOnce (s, w)))
   \<and> gameReadySent (state_of (sendGameReadyOnce (s, w)))
   \<and> (languageApplied s \<longrightarrow> applyLanguageOnce (s, w) = (Return (), (s, w)))
   \<and> (gameReadySent s \<longrightarrow> sendGameReadyOnce (s, w) = (Return (), (s, w)))
   \<and> (\<not> gameReadySent s \<and> bridge s = Some br \<longrightarrow>
        sendGameReadyOnce (s, w) =
          (Return (), (s\<lparr>gameReadySent := True\<rparr>, log_call (SendMessage ''game_ready'') w)))
   \<and> (\<not> languageApplied s \<and> bridge s = Some br \<longrightarrow>
        state_of (applyLanguageOnce (s, w)) = s\<lparr>languageApplied := True\<rparr>
      \<and> take 1 (new_calls w (world_of (applyLanguageOnce (s, w)))) = [ImportLocalization])"
  (is "?rep \<and> ?rest")
proof
  show ?rep
  proof
    assume "0 < n"
    then obtain k where n: "n = Suc k" by (cases n) auto
    show "repeat_call n applyLanguageOnce (s, w) = snd (applyLanguageOnce (s, w))
      \<and> repeat_call n sendGameReadyOnce (s, w) = snd (sendGameReadyOnce (s, w))"
      unfolding n
      by (intro conjI repeat_call_once applyLanguageOnce_twice sendGameReadyOnce_twice)
  qed
  show ?rest
    by (simp add: applyLanguageOnce_run sendGameReadyOnce_run run_defs log_call_def
        split: reply.splits)
qed

theorem once_functions_idempotent_witness:
  "(0::nat) < 3
   \<and> repeat_call 3 applyLanguageOnce (with_bridge, host0) = snd (applyLanguageOnce (with_bridge, host0))
   \<and> repeat_call 3 sendGameReadyOnce (with_bridge, host0) = snd (sendGameReadyOnce (with_bridge, host0))
   \<and> \<not> gameReadySent with_bridge \<and> \<not> languageApplied with_bridge
   \<and> bridge with_bridge = Some web_bridge
   \<and> sendGameReadyOnce (with_bridge, host0) =
        (Return (), (with_bridge\<lparr>gameReadySent := True\<rparr>, log_call (SendMessage ''game_ready'') host0))
   \<and> calls (world_of (applyLanguageOnce (with_bridge, host0))) = [ImportLocalization, SetLang ''ru'']
   \<and> gameReadySent (state_of (sendGameReadyOnce (with_bridge, host0)))
   \<and> sendGameReadyOnce (snd (sendGameReadyOnce (with_bridge, host0))) =
        (Return (), snd (sendGameReadyOnce (with_bridge, host0)))
   \<and> languageApplied (state_of (applyLanguageOnce (with_bridge, host0)))
   \<and> applyLanguageOnce (snd (applyLanguageOnce (with_bridge, host0))) =
        (Return (), snd (applyLanguageOnce (with_bridge, host0)))"
proof -
  have pre: "\<not> gameReadySent with_bridge \<and> \<not> languageApplied with_bridge
      \<and> bridge with_bridge = Some web_bridge"
    by (simp add: demo_defs)
  note first = once_functions_idempotent [where n = 3 and s = with_bridge and w = host0 and br = web_bridge]
  have again1: "sendGameReadyOnce (snd (sendGameReadyOnce (with_bridge, host0))) =
        (Return (), snd (sendGameReadyOnce (with_bridge, host0)))"
    using once_functions_idempotent [where n = 1 and s = "state_of (sendGameReadyOnce (with_bridge, host0))"
        and w = "world_of (sendGameReadyOnce (with_bridge, host0))"] first
    by (simp add: state_of_def world_of_def)
  have again2: "applyLanguageOnce (snd (applyLanguageOnce (with_bridge, host0))) =
        (Return (), snd (applyLanguageOnce (with_bridge, host0)))"
    using once_functions_idempotent [where n = 1 and s = "state_of (applyLanguageOnce (with_bridge, host0))"
        and w = "world_of (applyLanguageOnce (with_bridge, host0))"] first
    by (simp add: state_of_def world_of_def)
  have lang: "calls (world_of (applyLanguageOnce (with_bridge, host0))) = [ImportLocalization, SetLang ''ru'']"
    by (simp add: applyLanguageOnce_run world_of_def demo_defs)
  from first pre again1 again2 lang show ?thesis by (simp add: state_of_def)
qed

subsection \<open>Failed attempts and cooldown timestamps\<close>

lemma showInterstitialAd_no_advertisement:
  "\<not> isAdsDisabled s \<Longrightarrow> bridge s = Some br \<Longrightarrow> advertisement br = None \<Longrightarrow>
   \<not> time_now w - lastInterstitialTime s < INTERSTITIAL_COOLDOWN \<Longrightarrow>
   showInterstitialAd reason (s, w) =
     (Return (Obj [(''shown'', Bool False)]),
      (s, w\<lparr>calls := calls w @ [DateNow, SendMessage ''gameplay_stopped'', SendMessage ''gameplay_started'']\<rparr>))"
  by (simp add: showInterstitialAd_def js_defs time_now_def gameplayStop_run gameplayStart_run
      advertisement_call_def)

lemma showInterstitialAd_state:
  "state_of (showInterstitialAd reason (s, w)) = s \<or>
   (\<exists>v k t. answers w k ShowInterstitial = Returns v
      \<and> result_of (showInterstitialAd reason (s, w)) = Return (Obj [(''shown'', Bool True)])
      \<and> state_of (showInterstitialAd reason (s, w)) = s\<lparr>lastInterstitialTime := t\<rparr>)"
proof (cases "isAdsDisabled s \<or> time_now w - lastInterstitialTime s < INTERSTITIAL_COOLDOWN")
  case True
  then show ?thesis
    by (auto simp: showInterstitialAd_disabled showInterstitialAd_blocked state_of_def)
next
  case False
  show ?thesis
  proof (cases "bridge s")
    case None
    with False show ?thesis by (simp add: showInterstitialAd_dev state_of_def)
  next
    case (Some br)
    show ?thesis
    proof (cases "advertisement br")
      case None
      with False Some show ?thesis
        by (simp add: showInterstitialAd_no_advertisement state_of_def)
    next
      case (Some a)
      with False \<open>bridge s = Some br\<close> show ?thesis
        by (cases "answers w (length (calls w) + 2) ShowInterstitial")
           (auto simp: showInterstitialAd_allowed state_of_def result_of_def)
    qed
  qed
qed

lemma showShopRewardedAd_state:
  "state_of (showShopRewardedAd (s, w)) = s \<or>
   (\<exists>t. result_of (showShopRewardedAd (s, w)) =
           Return (Obj [(''rewarded'', Bool True), (''cooldown'', Bool False), (''remainingTime'', Num 0)])
      \<and> state_of (showShopRewardedAd (s, w)) = s\<lparr>lastShopRewardedTime := t\<rparr>)"
proof (cases "time_now w - lastShopRewardedTime s < SHOP_REWARDED_COOLDOWN")
  case True
  then show ?thesis by (simp add: showShopRewardedAd_blocked state_of_def)
next
  case False
  obtain b w' where "showRewardedAd ''shop_coins'' (s, log_call DateNow w) =
      (Return (Obj [(''rewarded'', Bool b)]), (s, w'))"
    using showRewardedAd_result by blast
  from showShopRewardedAd_allowed [OF False this] show ?thesis
    by (cases b) (auto simp: state_of_def result_of_def)
qed

text \<open>
  C10. Cooldown timestamps advance only on a successful display. When
  \<open>showInterstitialAd\<close> does not return \<open>{shown:true}\<close>, and in particular whenever the
  bridge's \<open>showInterstitial\<close> throws or rejects, \<open>lastInterstitialTime\<close> is unchanged (and
  with a bridge and ads enabled the answer is \<open>{shown:false}\<close>). When the result of
  \<open>showShopRewardedAd\<close> is not rewarded, and in particular whenever a bridge is present
  and its \<open>showRewarded\<close> throws or rejects, \<open>lastShopRewardedTime\<close> is unchanged.
\<close>

theorem failed_attempt_starts_no_cooldown:
  "(result_of (showInterstitialAd reason (s, w)) \<noteq> Return (Obj [(''shown'', Bool True)]) \<longrightarrow>
      state_of (showInterstitialAd reason (s, w)) = s)
   \<and> ((\<forall>k. is_failure (answers w k ShowInterstitial)) \<longrightarrow>
        state_of (showInterstitialAd reason (s, w)) = s
      \<and> lastInterstitialTime (state_of (showInterstitialAd reason (s, w))) = lastInterstitialTime s)
   \<and> ((\<forall>k. is_failure (answers w k ShowInterstitial)) \<and> bridge s = Some br \<longrightarrow>
        result_of (showInterstitialAd reason (s, w)) = Return (Obj [(''shown'', Bool False)]))
   \<and> (get_prop (case result_of (showShopRewardedAd (s, w)) of Return v \<Rightarrow> v | Throw e \<Rightarrow> Undefined)
          ''rewarded'' \<noteq> Bool True \<longrightarrow>
        state_of (showShopRewardedAd (s, w)) = s
      \<and> lastShopRewardedTime (state_of (showShopRewardedAd (s, w))) = lastShopRewardedTime s)
   \<and> ((\<forall>k. is_failure (answers w k ShowRewarded)) \<and> bridge s = Some br \<longrightarrow>
        result_of (showRewardedAd ''shop_coins'' (s, w)) = Return (Obj [(''rewarded'', Bool False)])
      \<and> state_of (showShopRewardedAd (s, w)) = s)"
  (is "?i1 \<and> ?i2 \<and> ?i3 \<and> ?s1 \<and> ?s2")
proof (intro conjI)
  show ?i1 using showInterstitialAd_state [of reason s w] by auto
  show ?i2
  proof
    assume f: "\<forall>k. is_failure (answers w k ShowInterstitial)"
    have "state_of (showInterstitialAd reason (s, w)) = s"
    proof (rule ccontr)
      assume "state_of (showInterstitialAd reason (s, w)) \<noteq> s"
      with showInterstitialAd_state [of reason s w]
      obtain v k where "answers w k ShowInterstitial = Returns v" by blast
      moreover from f have "is_failure (answers w k ShowInterstitial)" by blast
      ultimately show False by (simp add: is_failure_def)
    qed
    then show "state_of (showInterstitialAd reason (s, w)) = s
      \<and> lastInterstitialTime (state_of (showInterstitialAd reason (s, w))) = lastInterstitialTime s"
      by simp
  qed
  show ?i3
  proof
    assume h: "(\<forall>k. is_failure (answers w k ShowInterstitial)) \<and> bridge s = Some br"
    then have f: "is_failure (answers w (length (calls w) + 2) ShowInterstitial)" by blast
    show "result_of (showInterstitialAd reason (s, w)) = Return (Obj [(''shown'', Bool False)])"
    proof (cases "isAdsDisabled s \<or> time_now w - lastInterstitialTime s < INTERSTITIAL_COOLDOWN")
      case True
      then show ?thesis
        by (auto simp: showInterstitialAd_disabled showInterstitialAd_blocked result_of_def)
    next
      case False
      with h f show ?thesis
        by (cases "advertisement br")
           (auto simp: showInterstitialAd_no_advertisement showInterstitialAd_allowed result_of_def
              is_failure_def split: reply.splits)
    qed
  qed
  show ?s1 using showShopRewardedAd_state [of s w] by (auto simp: get_prop_def)
  show ?s2
  proof
    assume h: "(\<forall>k. is_failure (answers w k ShowRewarded)) \<and> bridge s = Some br"
    then have f: "\<And>w'. answers w' = answers w \<Longrightarrow>
        result_of (showRewardedAd ''shop_coins'' (s, w')) = Return (Obj [(''rewarded'', Bool False)])"
      by (auto simp: showRewardedAd_run result_of_def is_failure_def split: option.splits reply.splits)
    have "state_of (showShopRewardedAd (s, w)) = s"
    proof (cases "time_now w - lastShopRewardedTime s < SHOP_REWARDED_COOLDOWN")
      case True
      then show ?thesis by (simp add: showShopRewardedAd_blocked state_of_def)
    next
      case False
      obtain b w' where ad: "showRewardedAd ''shop_coins'' (s, log_call DateNow w) =
          (Return (Obj [(''rewarded'', Bool b)]), (s, w'))"
        using showRewardedAd_result by blast
      with f [of "log_call DateNow w"] have "\<not> b" by (simp add: result_of_def log_call_def)
      with showShopRewardedAd_allowed [OF False ad] show ?thesis by (simp add: state_of_def)
    qed
    with f [of w] show "result_of (showRewardedAd ''shop_coins'' (s, w)) = Return (Obj [(''rewarded'', Bool False)])
      \<and> state_of (showShopRewardedAd (s, w)) = s" by simp
  qed
qed

theorem failed_attempt_starts_no_cooldown_witness:
  "(\<forall>k. is_failure (answers failing_ads k ShowInterstitial))
   \<and> (\<forall>k. is_failure (answers failing_ads k ShowRewarded))
   \<and> bridge with_bridge = Some web_bridge
   \<and> result_of (showInterstitialAd ''level'' (with_bridge, failing_ads)) = Return (Obj [(''shown'', Bool False)])
   \<and> result_of (showInterstitialAd ''level'' (with_bridge, failing_ads)) \<noteq> Return (Obj [(''shown'', Bool True)])
   \<and> ShowInterstitial \<in> set (calls (world_of (showInterstitialAd ''level'' (with_bridge, failing_ads))))
   \<and> lastInterstitialTime (state_of (showInterstitialAd ''level'' (with_bridge, failing_ads))) = 0
   \<and> get_prop (case result_of (showShopRewardedAd (with_bridge, failing_ads)) of Return v \<Rightarrow> v | Throw e \<Rightarrow> Undefined)
        ''rewarded'' \<noteq> Bool True
   \<and> ShowRewarded \<in> set (calls (world_of (showShopRewardedAd (with_bridge, failing_ads))))
   \<and> lastShopRewardedTime (state_of (showShopRewardedAd (with_bridge, failing_ads))) = 0"
proof -
  have pre: "(\<forall>k. is_failure (answers failing_ads k ShowInterstitial))
      \<and> (\<forall>k. is_failure (answers failing_ads k ShowRewarded)) \<and> bridge with_bridge = Some web_bridge"
    by (simp add: failing_ads_def is_failure_def demo_defs)
  have zero: "lastInterstitialTime with_bridge = 0 \<and> lastShopRewardedTime with_bridge = 0"
    by (simp add: demo_defs)
  have tried: "ShowInterstitial \<in> set (calls (world_of (showInterstitialAd ''level'' (with_bridge, failing_ads))))
      \<and> ShowRewarded \<in> set (calls (world_of (showShopRewardedAd (with_bridge, failing_ads))))
      \<and> get_prop (case result_of (showShopRewardedAd (with_bridge, failing_ads)) of Return v \<Rightarrow> v | Throw e \<Rightarrow> Undefined)
          ''rewarded'' \<noteq> Bool True"
    by (simp add: showInterstitialAd_def showShopRewardedAd_def showRewardedAd_def gameplayStop_def
        gameplayStart_def advertisement_call_def js_defs run_defs get_prop_def failing_ads_def demo_defs)
  from failed_attempt_starts_no_cooldown [where s = with_bridge and w = failing_ads
      and reason = "''level''" and br = web_bridge] pre zero tried
  show ?thesis by simp
qed

subsection \<open>The ads-disabled flag\<close>

lemma showShopRewardedAd_flag:
  "showShopRewardedAd (s\<lparr>isAdsDisabled := d\<rparr>, w) =
     (result_of (showShopRewardedAd (s, w)),
      ((state_of (showShopRewardedAd (s, w)))\<lparr>isAdsDisabled := d\<rparr>, world_of (showShopRewardedAd (s, w))))"
proof (cases "time_now w - lastShopRewardedTime s < SHOP_REWARDED_COOLDOWN")
  case True
  then show ?thesis by (simp add: showShopRewardedAd_blocked run_defs)
next
  case False
  obtain b w' where ad: "showRewardedAd ''shop_coins'' (s, log_call DateNow w) =
      (Return (Obj [(''rewarded'', Bool b)]), (s, w'))"
    using showRewardedAd_result by blast
  then have ad': "showRewardedAd ''shop_coins'' (s\<lparr>isAdsDisabled := d\<rparr>, log_call DateNow w) =
      (Return (Obj [(''rewarded'', Bool b)]), (s\<lparr>isAdsDisabled := d\<rparr>, w'))"
    by (auto simp: showRewardedAd_run split: option.splits reply.splits)
  from False have False': "\<not> time_now w - lastShopRewardedTime (s\<lparr>isAdsDisabled := d\<rparr>) < SHOP_REWARDED_COOLDOWN"
    by simp
  show ?thesis
    by (simp add: showShopRewardedAd_allowed [OF False ad] showShopRewardedAd_allowed [OF False' ad'] run_defs)
qed

lemma showShopRewardedAd_attempted:
  assumes "\<not> time_now w - lastShopRewardedTime s < SHOP_REWARDED_COOLDOWN"
      and "bridge s = Some br" and "advertisement br = Some a"
  shows "ShowRewarded \<in> set (new_calls w (world_of (showShopRewardedAd (s, w))))"
proof -
  obtain b w' where ad: "showRewardedAd ''shop_coins'' (s, log_call DateNow w) =
      (Return (Obj [(''rewarded'', Bool b)]), (s, w'))"
    using showRewardedAd_result by blast
  from assms(2,3) have "ShowRewarded \<in> set (new_calls w (world_of (showRewardedAd ''shop_coins'' (s, log_call DateNow w))))"
    by (simp add: showRewardedAd_run run_defs log_call_def split: reply.splits)
  with ad have "ShowRewarded \<in> set (drop (length (calls w)) (calls w'))"
    by (simp add: run_defs)
  with showShopRewardedAd_allowed [OF assms(1) ad] show ?thesis
    by (auto simp: run_defs log_call_def)
qed

text \<open>
  C9. The ads-disabled flag gates only interstitials. After \<open>setAdsDisabled(true)\<close>,
  \<open>showInterstitialAd\<close> returns \<open>{shown:false}\<close> and leaves module state and host exactly
  as they were (so every later call does the same). \<open>showRewardedAd\<close> and
  \<open>showShopRewardedAd\<close> do the same whatever the flag is, and with the flag set they
  still invoke \<open>advertisement.showRewarded\<close> (the latter outside its cooldown) when the
  bridge has one.
\<close>

theorem ads_disabled_gates_only_interstitials:
  "snd (setAdsDisabled True (s, w)) = (s\<lparr>isAdsDisabled := True\<rparr>, w)
   \<and> showInterstitialAd reason (snd (setAdsDisabled True (s, w))) =
       (Return (Obj [(''shown'', Bool False)]), snd (setAdsDisabled True (s, w)))
   \<and> showRewardedAd reason (s\<lparr>isAdsDisabled := d\<rparr>, w) =
       (result_of (showRewardedAd reason (s, w)),
        ((state_of (showRewardedAd reason (s, w)))\<lparr>isAdsDisabled := d\<rparr>, world_of (showRewardedAd reason (s, w))))
   \<and> showShopRewardedAd (s\<lparr>isAdsDisabled := d\<rparr>, w) =
       (result_of (showShopRewardedAd (s, w)),
        ((state_of (showShopRewardedAd (s, w)))\<lparr>isAdsDisabled := d\<rparr>, world_of (showShopRewardedAd (s, w))))
   \<and> (bridge s = Some br \<and> advertisement br = Some a \<longrightarrow>
        ShowRewarded \<in> set (new_calls w (world_of (showRewardedAd reason (snd (setAdsDisabled True (s, w)))))))
   \<and> (bridge s = Some br \<and> advertisement br = Some a
        \<and> SHOP_REWARDED_COOLDOWN \<le> time_now w - lastShopRewardedTime s \<longrightarrow>
        ShowRewarded \<in> set (new_calls w (world_of (showShopRewardedAd (snd (setAdsDisabled True (s, w)))))))"
  (is "?set \<and> ?inter \<and> ?rew \<and> ?shop \<and> ?rew_tried \<and> ?shop_tried")
proof (intro conjI)
  show set: ?set by (simp add: setAdsDisabled_def setv_def)
  show ?inter by (simp add: set showInterstitialAd_disabled)
  show ?rew by (simp add: showRewardedAd_run run_defs split: option.splits reply.splits)
  show ?shop by (rule showShopRewardedAd_flag)
  show ?rew_tried
    by (simp add: set showRewardedAd_run run_defs split: reply.splits)
  show ?shop_tried
    using showShopRewardedAd_attempted [of w "s\<lparr>isAdsDisabled := True\<rparr>" br a]
    by (simp add: set)
qed

theorem ads_disabled_gates_only_interstitials_witness:
  "bridge with_bridge = Some web_bridge \<and> advertisement web_bridge = Some (Advertisement True)
   \<and> SHOP_REWARDED_COOLDOWN \<le> time_now host0 - lastShopRewardedTime with_bridge
   \<and> snd (setAdsDisabled True (with_bridge, host0)) = (ads_off, host0)
   \<and> showInterstitialAd ''hint'' (ads_off, host0) = (Return (Obj [(''shown'', Bool False)]), (ads_off, host0))
   \<and> ShowRewarded \<in> set (new_calls host0 (world_of (showRewardedAd ''hint'' (ads_off, host0))))
   \<and> ShowRewarded \<in> set (new_calls host0 (world_of (showShopRewardedAd (ads_off, host0))))
   \<and> result_of (showRewardedAd ''hint'' (ads_off, host0)) = Return (Obj [(''rewarded'', Bool True)])"
proof -
  have pre: "bridge with_bridge = Some web_bridge \<and> advertisement web_bridge = Some (Advertisement True)
      \<and> SHOP_REWARDED_COOLDOWN \<le> time_now host0 - lastShopRewardedTime with_bridge"
    by (simp add: demo_defs)
  have off: "with_bridge\<lparr>isAdsDisabled := True\<rparr> = ads_off"
    by (simp add: ads_off_def)
  note t = ads_disabled_gates_only_interstitials [where s = with_bridge and w = host0
      and br = web_bridge and a = "Advertisement True" and reason = "''hint''" and d = True]
  from t have a: "snd (setAdsDisabled True (with_bridge, host0)) = (ads_off, host0)"
    by (simp add: off)
  from t have b: "showInterstitialAd ''hint'' (snd (setAdsDisabled True (with_bridge, host0))) =
       (Return (Obj [(''shown'', Bool False)]), snd (setAdsDisabled True (with_bridge, host0)))"
    by blast
  from t pre have c: "ShowRewarded \<in> set (new_calls host0
       (world_of (showRewardedAd ''hint'' (snd (setAdsDisabled True (with_bridge, host0))))))"
    by blast
  from t pre have d: "ShowRewarded \<in> set (new_calls host0
       (world_of (showShopRewardedAd (snd (setAdsDisabled True (with_bridge, host0))))))"
    by blast
  from t have "showRewardedAd ''hint'' (with_bridge\<lparr>isAdsDisabled := True\<rparr>, host0) =
       (result_of (showRewardedAd ''hint'' (with_bridge, host0)),
        ((state_of (showRewardedAd ''hint'' (with_bridge, host0)))\<lparr>isAdsDisabled := True\<rparr>,
         world_of (showRewardedAd ''hint'' (with_bridge, host0))))"
    by blast
  moreover have "result_of (showRewardedAd ''hint'' (with_bridge, host0)) = Return (Obj [(''rewarded'', Bool True)])"
    by (simp add: showRewardedAd_run result_of_def demo_defs)
  ultimately have e: "result_of (showRewardedAd ''hint'' (ads_off, host0)) = Return (Obj [(''rewarded'', Bool True)])"
    by (simp add: off result_of_def)
  from pre a b [unfolded a] c [unfolded a] d [unfolded a] e show ?thesis by simp
qed

subsection \<open>Initialization\<close>

lemma interval_tick_never:
  "attempts < maxAttempts \<Longrightarrow>
   (\<forall>k < maxAttempts - attempts. window_bridge w (length (calls w) + k) = NotDefined) \<Longrightarrow>
   fst (interval_tick attempts w) = None"
proof (induction attempts w rule: interval_tick.induct)
  case (1 attempts w)
  from "1.prems" have here: "window_bridge w (length (calls w)) = NotDefined"
    by (metis add.right_neutral zero_less_diff)
  show ?case
  proof (cases "attempts + 1 \<ge> maxAttempts")
    case True
    with here show ?thesis
      by (subst interval_tick.simps) (simp add: read_window_bridge_def)
  next
    case False
    have rd: "read_window_bridge w = (NotDefined, log_call ReadWindowBridge w)"
      by (simp add: read_window_bridge_def here)
    have "fst (interval_tick (attempts + 1) (log_call ReadWindowBridge w)) = None"
    proof (rule "1.IH" [OF rd [symmetric] refl False])
      show "attempts + 1 < maxAttempts" using False by simp
      show "\<forall>k<maxAttempts - (attempts + 1).
          window_bridge (log_call ReadWindowBridge w) (length (calls (log_call ReadWindowBridge w)) + k) = NotDefined"
      proof (intro allI impI)
        fix k assume "k < maxAttempts - (attempts + 1)"
        then have "Suc k < maxAttempts - attempts" by simp
        with "1.prems" have "window_bridge w (length (calls w) + Suc k) = NotDefined" by blast
        then show "window_bridge (log_call ReadWindowBridge w) (length (calls (log_call ReadWindowBridge w)) + k) = NotDefined"
          by (simp add: log_call_def)
      qed
    qed
    with False rd show ?thesis
      by (subst interval_tick.simps) simp
  qed
qed

lemma interval_tick_log:
  "\<exists>cs. snd (interval_tick attempts w) = w\<lparr>calls := calls w @ cs\<rparr>"
proof (induction attempts w rule: interval_tick.induct)
  case (1 attempts w)
  have base: "\<exists>cs. log_call ReadWindowBridge w = w\<lparr>calls := calls w @ cs\<rparr>"
    by (rule exI [of _ "[ReadWindowBridge]"]) (simp add: log_call_def)
  show ?case
  proof (cases "window_bridge w (length (calls w))")
    case NotDefined
    then have rd: "read_window_bridge w = (NotDefined, log_call ReadWindowBridge w)"
      by (simp add: read_window_bridge_def)
    show ?thesis
    proof (cases "attempts + 1 \<ge> maxAttempts")
      case True
      with rd base show ?thesis by (subst interval_tick.simps) simp
    next
      case False
      from "1.IH" [OF rd [symmetric] refl False]
      obtain cs where "snd (interval_tick (attempts + 1) (log_call ReadWindowBridge w)) =
          (log_call ReadWindowBridge w)\<lparr>calls := calls (log_call ReadWindowBridge w) @ cs\<rparr>"
        by blast
      then have "snd (interval_tick (attempts + 1) (log_call ReadWindowBridge w)) =
          w\<lparr>calls := calls w @ (ReadWindowBridge # cs)\<rparr>"
        by (simp add: log_call_def)
      with False rd show ?thesis
        by (subst interval_tick.simps) (simp, blast)
    qed
  next
    case IsNull
    with base show ?thesis
      by (subst interval_tick.simps) (simp add: read_window_bridge_def)
  next
    case (Holds b)
    with base show ?thesis
      by (subst interval_tick.simps) (simp add: read_window_bridge_def)
  qed
qed

lemma waitForBridge_run:
  "\<exists>b cs. waitForBridge (s, w) = (Return b, (s, w\<lparr>calls := calls w @ cs\<rparr>))"
proof (cases "window_bridge w (length (calls w))")
  case NotDefined
  obtain cs where "snd (interval_tick 0 (log_call ReadWindowBridge w)) =
      (log_call ReadWindowBridge w)\<lparr>calls := calls (log_call ReadWindowBridge w) @ cs\<rparr>"
    using interval_tick_log by blast
  then have "snd (interval_tick 0 (log_call ReadWindowBridge w)) = w\<lparr>calls := calls w @ (ReadWindowBridge # cs)\<rparr>"
    by (simp add: log_call_def)
  with NotDefined show ?thesis
    by (auto simp: waitForBridge_def read_window_bridge_def split: prod.splits)
next
  case IsNull
  then show ?thesis
    by (intro exI [of _ None] exI [of _ "[ReadWindowBridge]"])
       (simp add: waitForBridge_def read_window_bridge_def log_call_def)
next
  case (Holds b)
  then show ?thesis
    by (intro exI [of _ "Some b"] exI [of _ "[ReadWindowBridge]"])
       (simp add: waitForBridge_def read_window_bridge_def log_call_def)
qed

lemma waitForBridge_never:
  assumes "\<forall>k \<le> maxAttempts. window_bridge w (length (calls w) + k) = NotDefined"
  shows "fst (waitForBridge (s, w)) = Return None"
proof -
  from assms have first: "window_bridge w (length (calls w)) = NotDefined"
    by (metis add.right_neutral le0)
  have "fst (interval_tick 0 (log_call ReadWindowBridge w)) = None"
  proof (rule interval_tick_never)
    show "0 < maxAttempts" by (simp add: maxAttempts_def)
    show "\<forall>k<maxAttempts - 0.
        window_bridge (log_call ReadWindowBridge w) (length (calls (log_call ReadWindowBridge w)) + k) = NotDefined"
    proof (intro allI impI)
      fix k assume "k < maxAttempts - 0"
      then have "Suc k \<le> maxAttempts" by simp
      with assms have "window_bridge w (length (calls w) + Suc k) = NotDefined" by blast
      then show "window_bridge (log_call ReadWindowBridge w) (length (calls (log_call ReadWindowBridge w)) + k) = NotDefined"
        by (simp add: log_call_def)
    qed
  qed
  with first show ?thesis
    by (auto simp: waitForBridge_def read_window_bridge_def split: prod.splits)
qed


lemma initPlaygamaSDK_ready:
  "isInitialized s \<and> bridge s \<noteq> None \<Longrightarrow> initPlaygamaSDK (s, w) = (Return (bridge s), (s, w))"
  by (simp add: initPlaygamaSDK_def js_defs)

lemma initPlaygamaSDK_after_wait:
  assumes "\<not> (isInitialized s \<and> bridge s \<noteq> None)"
      and "waitForBridge (s, w) = (Return b, (s, w1))"
  shows "(\<exists>s' w'. initPlaygamaSDK (s, w) = (Return None, (s', w')) \<and> isInitialized s')
       \<or> (\<exists>s' w' v. initPlaygamaSDK (s, w) = (Return b, (s', w')) \<and> isInitialized s'
             \<and> b \<noteq> None \<and> answers w1 (length (calls w1)) Initialize = Returns v)"
  using assms
  by (cases b; cases "answers w1 (length (calls w1)) Initialize")
     (auto simp: initPlaygamaSDK_def js_defs read_window_vkBridge_def
        split: option.splits reply.splits global.splits)

text \<open>
  C6. \<open>initPlaygamaSDK\<close> never throws and always leaves \<open>isInitialized\<close> true, so that
  \<open>isYandexSDKReady()\<close> returns true afterwards. When the module is not yet initialized
  with a bridge and either \<open>window.bridge\<close> stays undefined at the first check and at all
  30 polls, or the bridge's \<open>initialize()\<close> throws or rejects, it returns \<open>null\<close>.
\<close>

theorem initPlaygamaSDK_tolerates_missing_bridge:
  "(\<exists>r. result_of (initPlaygamaSDK (s, w)) = Return r)
   \<and> isInitialized (state_of (initPlaygamaSDK (s, w)))
   \<and> result_of (isYandexSDKReady (snd (initPlaygamaSDK (s, w)))) = Return True
   \<and> (\<not> (isInitialized s \<and> bridge s \<noteq> None)
        \<and> (\<forall>k \<le> maxAttempts. window_bridge w (length (calls w) + k) = NotDefined) \<longrightarrow>
      result_of (initPlaygamaSDK (s, w)) = Return None)
   \<and> (\<not> (isInitialized s \<and> bridge s \<noteq> None)
        \<and> (\<forall>k. is_failure (answers w k Initialize)) \<longrightarrow>
      result_of (initPlaygamaSDK (s, w)) = Return None)"
  (is "?total \<and> ?flag \<and> ?ready \<and> ?absent \<and> ?failing")
proof -
  obtain b cs where wait: "waitForBridge (s, w) = (Return b, (s, w\<lparr>calls := calls w @ cs\<rparr>))"
    using waitForBridge_run by blast
  have general: "?total \<and> ?flag"
  proof (cases "isInitialized s \<and> bridge s \<noteq> None")
    case True
    then show ?thesis by (simp add: initPlaygamaSDK_ready run_defs)
  next
    case False
    from initPlaygamaSDK_after_wait [OF False wait] show ?thesis
      by (auto simp: run_defs)
  qed
  then have ready: ?ready
    by (cases "initPlaygamaSDK (s, w)") (simp add: isYandexSDKReady_def getv_def run_defs)
  have absent: ?absent
  proof
    assume h: "\<not> (isInitialized s \<and> bridge s \<noteq> None)
        \<and> (\<forall>k \<le> maxAttempts. window_bridge w (length (calls w) + k) = NotDefined)"
    then have "fst (waitForBridge (s, w)) = Return None" by (simp add: waitForBridge_never)
    with wait have "b = None" by simp
    with initPlaygamaSDK_after_wait [OF _ wait] h
    show "result_of (initPlaygamaSDK (s, w)) = Return None"
      by (auto simp: run_defs)
  qed
  have failing: ?failing
  proof
    assume h: "\<not> (isInitialized s \<and> bridge s \<noteq> None) \<and> (\<forall>k. is_failure (answers w k Initialize))"
    then have "is_failure (answers w (length (calls w) + length cs) Initialize)" by blast
    then have "\<And>v. answers w (length (calls w) + length cs) Initialize \<noteq> Returns v"
      by (auto simp: is_failure_def)
    with initPlaygamaSDK_after_wait [OF _ wait] h
    show "result_of (initPlaygamaSDK (s, w)) = Return None"
      by (auto simp: run_defs)
  qed
  from general ready absent failing show ?thesis by blast
qed

theorem initPlaygamaSDK_tolerates_missing_bridge_witness:
  "\<not> (isInitialized initial_state \<and> bridge initial_state \<noteq> None)
   \<and> (\<forall>k. window_bridge host0 k = NotDefined)
   \<and> result_of (initPlaygamaSDK (initial_state, host0)) = Return None
   \<and> isInitialized (state_of (initPlaygamaSDK (initial_state, host0)))
   \<and> result_of (isYandexSDKReady (snd (initPlaygamaSDK (initial_state, host0)))) = Return True
   \<and> (\<forall>k. is_failure (answers failing_init k Initialize))
   \<and> (\<forall>k. window_bridge failing_init k = Holds web_bridge)
   \<and> result_of (initPlaygamaSDK (initial_state, failing_init)) = Return None
   \<and> isInitialized (state_of (initPlaygamaSDK (initial_state, failing_init)))
   \<and> result_of (isYandexSDKReady (snd (initPlaygamaSDK (initial_state, failing_init)))) = Return True"
proof -
  have pre: "\<not> (isInitialized initial_state \<and> bridge initial_state \<noteq> None)
      \<and> (\<forall>k. window_bridge host0 k = NotDefined)
      \<and> (\<forall>k. is_failure (answers failing_init k Initialize))
      \<and> (\<forall>k. window_bridge failing_init k = Holds web_bridge)"
    by (simp add: demo_defs failing_init_def is_failure_def)
  from pre initPlaygamaSDK_tolerates_missing_bridge [where s = initial_state and w = host0]
    initPlaygamaSDK_tolerates_missing_bridge [where s = initial_state and w = failing_init]
  show ?thesis by simp
qed

subsection \<open>Storage fallback without a bridge\<close>

lemma savePlayerData_dev:
  "bridge s = None \<Longrightarrow> JSON_stringify w d = Str str \<Longrightarrow>
   savePlayerData d (s, w) =
     (if throws (answers w (length (calls w)) (LocalStorage_setItem ''cloudSave'' str))
      then (Return (Bool False), (s, log_call (LocalStorage_setItem ''cloudSave'' str) w))
      else (Return (Bool True),
            (s, (log_call (LocalStorage_setItem ''cloudSave'' str) w)
                  \<lparr>localStorage := (localStorage w)(''cloudSave'' \<mapsto> str)\<rparr>)))"
  by (simp add: savePlayerData_def isVK_def localStorage_setItem_def ToString_def js_defs
      throws_def split: reply.splits)

lemma loadPlayerData_dev:
  "bridge s = None \<Longrightarrow>
   loadPlayerData (s, w) =
     (if throws (answers w (length (calls w)) (LocalStorage_getItem ''cloudSave'')) then Return (Obj [])
      else (case localStorage w ''cloudSave'' of
              None \<Rightarrow> Return (Obj [])
            | Some str \<Rightarrow>
                if str = [] then Return (Obj [])
                else (case JSON_parse w str of Return v \<Rightarrow> Return v | Throw e \<Rightarrow> Return (Obj []))),
      (s, log_call (LocalStorage_getItem ''cloudSave'') w))"
  by (simp add: loadPlayerData_def isVK_def localStorage_getItem_def js_defs throws_def
      split: reply.splits option.splits outcome.splits)

text \<open>
  C3 (as amended). With no bridge, for every JSON-serializable \<open>d\<close>, when the calls to
  \<open>localStorage.setItem\<close> and \<open>localStorage.getItem\<close> do not throw:
  \<open>savePlayerData(d)\<close> stores \<open>JSON.stringify(d)\<close> under \<open>cloudSave\<close> and returns
  \<open>true\<close>, and \<open>loadPlayerData()\<close> called next returns \<open>d\<close>. With nothing stored
  under \<open>cloudSave\<close>, \<open>loadPlayerData()\<close> returns \<open>{}\<close>.
\<close>

theorem storage_fallback_round_trip:
  "(bridge s = None \<and> json_serializable w d \<and> JSON_stringify w d = Str j
      \<and> \<not> throws (answers w (length (calls w)) (LocalStorage_setItem ''cloudSave'' j))
      \<and> \<not> throws (answers w (length (calls w) + 1) (LocalStorage_getItem ''cloudSave'')) \<longrightarrow>
      result_of (savePlayerData d (s, w)) = Return (Bool True)
    \<and> state_of (savePlayerData d (s, w)) = s
    \<and> localStorage (world_of (savePlayerData d (s, w))) ''cloudSave'' = Some j
    \<and> new_calls w (world_of (savePlayerData d (s, w))) = [LocalStorage_setItem ''cloudSave'' j]
    \<and> result_of (loadPlayerData (snd (savePlayerData d (s, w)))) = Return d)
   \<and> (bridge s = None \<and> localStorage w ''cloudSave'' = None \<longrightarrow>
        result_of (loadPlayerData (s, w)) = Return (Obj []))"
  by (auto simp: savePlayerData_dev [where str = j] loadPlayerData_dev json_serializable_def
      run_defs log_call_def)

theorem storage_fallback_round_trip_witness:
  "bridge initial_state = None \<and> json_serializable host0 five_coins
   \<and> JSON_stringify host0 five_coins = Str five_coins_json
   \<and> \<not> throws (answers host0 0 (LocalStorage_setItem ''cloudSave'' five_coins_json))
   \<and> \<not> throws (answers host0 1 (LocalStorage_getItem ''cloudSave''))
   \<and> result_of (savePlayerData five_coins (initial_state, host0)) = Return (Bool True)
   \<and> localStorage (world_of (savePlayerData five_coins (initial_state, host0))) ''cloudSave'' = Some five_coins_json
   \<and> result_of (loadPlayerData (snd (savePlayerData five_coins (initial_state, host0)))) = Return five_coins
   \<and> localStorage host0 ''cloudSave'' = None
   \<and> result_of (loadPlayerData (initial_state, host0)) = Return (Obj [])"
proof -
  have pre: "bridge initial_state = None \<and> json_serializable host0 five_coins
      \<and> JSON_stringify host0 five_coins = Str five_coins_json
      \<and> \<not> throws (answers host0 (length (calls host0)) (LocalStorage_setItem ''cloudSave'' five_coins_json))
      \<and> \<not> throws (answers host0 (length (calls host0) + 1) (LocalStorage_getItem ''cloudSave''))
      \<and> localStorage host0 ''cloudSave'' = None"
    by (simp add: demo_defs five_coins_def five_coins_json_def json_serializable_def
        demo_stringify_def demo_parse_def throws_def)
  have idx: "length (calls host0) = 0" by (simp add: host0_def)
  from pre storage_fallback_round_trip [where s = initial_state and w = host0 and d = five_coins
      and j = five_coins_json]
  show ?thesis by (simp add: idx)
qed

text \<open>
  C3 as stated fails: with no bridge and a serializable \<open>d\<close>, when
  \<open>localStorage.setItem\<close> throws (the quota is exceeded), \<open>savePlayerData(d)\<close> returns
  \<open>false\<close> and \<open>loadPlayerData()\<close> returns \<open>{}\<close>, not \<open>d\<close>.
\<close>

theorem storage_fallback_setItem_throws:
  "bridge initial_state = None \<and> json_serializable quota_full five_coins
   \<and> result_of (savePlayerData five_coins (initial_state, quota_full)) = Return (Bool False)
   \<and> result_of (loadPlayerData (snd (savePlayerData five_coins (initial_state, quota_full)))) = Return (Obj [])
   \<and> five_coins \<noteq> Obj []"
  by (simp add: savePlayerData_dev [where str = five_coins_json] loadPlayerData_dev demo_defs
      quota_full_def five_coins_def five_coins_json_def json_serializable_def demo_stringify_def
      demo_parse_def throws_def run_defs log_call_def)

subsection \<open>Merging legacy local values on VK\<close>

lemma parse_item_pure:
  "\<exists>r. \<forall>\<sigma>. parse_item p item data \<sigma> = (r, \<sigma>)"
  by (cases item) (simp_all add: parse_item_def member_def js_defs Let_def)

lemma forEach_parse_item_pure:
  "\<exists>r. \<forall>\<sigma>. forEach items (parse_item p) acc \<sigma> = (r, \<sigma>)"
proof (induction items arbitrary: acc)
  case Nil
  show ?case by (simp add: ret_def)
next
  case (Cons item items)
  obtain r where r: "\<And>\<sigma>. parse_item p item acc \<sigma> = (r, \<sigma>)"
    using parse_item_pure by blast
  show ?case
  proof (cases r)
    case (Return acc')
    from Cons.IH [of acc'] obtain r' where "\<And>\<sigma>. forEach items (parse_item p) acc' \<sigma> = (r', \<sigma>)"
      by blast
    with r Return show ?thesis by (simp add: and_then_def)
  next
    case (Throw e)
    with r show ?thesis by (simp add: and_then_def)
  qed
qed

lemma parse_vk_result_array:
  "parse_vk_result (Arr elems) \<sigma> =
     (Throw (TypeError ''result.keys.forEach is not a function''), \<sigma>)"
  by (cases \<sigma>) (simp add: parse_vk_result_def js_defs)

lemma parse_vk_result_not_array:
  assumes "\<And>elems. result \<noteq> Arr elems"
  shows "parse_vk_result result =
     and_then (builtin parseInt10) (\<lambda>parseInt.
     and_then (member result ''keys'') (\<lambda>keys.
     if truthy keys then
       (case keys of
          Arr items \<Rightarrow> forEach items (parse_item parseInt) []
        | _ \<Rightarrow> throw (TypeError ''result.keys.forEach is not a function''))
     else ret []))"
  using assms by (cases result) (auto simp: parse_vk_result_def)

lemma parse_vk_result_pure:
  "parseInt10 w' = parseInt10 w \<Longrightarrow>
   parse_vk_result result (s', w') = (result_of (parse_vk_result result (s, w)), (s', w'))"
proof (cases "\<exists>elems. result = Arr elems")
  case True
  then show ?thesis by (auto simp: parse_vk_result_array result_of_def)
next
  case False
  then have shape: "\<And>elems. result \<noteq> Arr elems" by blast
  assume p: "parseInt10 w' = parseInt10 w"
  have "\<exists>r. \<forall>s w. parse_vk_result result (s, w) = (r (parseInt10 w), (s, w))"
  proof -
    have "\<forall>p. \<exists>r. \<forall>\<sigma>. (and_then (member result ''keys'') (\<lambda>keys.
       if truthy keys then
         (case keys of
            Arr items \<Rightarrow> forEach items (parse_item p) []
          | _ \<Rightarrow> throw (TypeError ''result.keys.forEach is not a function''))
       else ret [])) \<sigma> = (r, \<sigma>)"
    proof
      fix p
      show "\<exists>r. \<forall>\<sigma>. (and_then (member result ''keys'') (\<lambda>keys.
       if truthy keys then
         (case keys of
            Arr items \<Rightarrow> forEach items (parse_item p) []
          | _ \<Rightarrow> throw (TypeError ''result.keys.forEach is not a function''))
       else ret [])) \<sigma> = (r, \<sigma>)"
      proof (cases "get_prop result ''keys''")
        case (Arr items)
        obtain r where "\<And>\<sigma>. forEach items (parse_item p) [] \<sigma> = (r, \<sigma>)"
          using forEach_parse_item_pure by blast
        with Arr show ?thesis
          by (cases result) (simp_all add: member_def js_defs)
      qed (cases result; simp add: member_def js_defs)+
    qed
    then obtain r where "\<And>p \<sigma>. (and_then (member result ''keys'') (\<lambda>keys.
       if truthy keys then
         (case keys of
            Arr items \<Rightarrow> forEach items (parse_item p) []
          | _ \<Rightarrow> throw (TypeError ''result.keys.forEach is not a function''))
       else ret [])) \<sigma> = (r p, \<sigma>)"
      by metis
    then show ?thesis
      by (intro exI [of _ r]) (simp add: parse_vk_result_not_array [OF shape] and_then_def builtin_def)
  qed
  then obtain r where "\<And>s w. parse_vk_result result (s, w) = (r (parseInt10 w), (s, w))"
    by blast
  with p show ?thesis by (simp add: result_of_def)
qed

lemma savePlayerData_vk_total:
  "\<exists>r \<sigma>'. savePlayerData_vk d \<sigma> = (Return r, \<sigma>')"
  by (auto simp: savePlayerData_vk_def try_catch_def ret_def split: prod.splits outcome.splits)

lemma try_catch_total:
  assumes "\<And>e \<sigma>. \<exists>r \<sigma>'. h e \<sigma> = (Return r, \<sigma>')"
  shows "\<exists>r \<sigma>'. try_catch m h \<sigma> = (Return r, \<sigma>')"
proof -
  obtain r \<sigma>' where Pair: "m \<sigma> = (r, \<sigma>')" by (metis surj_pair)
  show ?thesis
  proof (cases r)
    case (Return a)
    with Pair show ?thesis by (simp add: try_catch_def)
  next
    case (Throw e)
    with Pair assms [of e \<sigma>'] show ?thesis by (simp add: try_catch_def)
  qed
qed

lemma savePlayerData_total:
  "\<exists>r \<sigma>'. savePlayerData d \<sigma> = (Return r, \<sigma>')"
proof -
  obtain s w where \<sigma>: "\<sigma> = (s, w)" by (cases \<sigma>)
  have "\<exists>r s1 w1. (if isVK s then savePlayerData_vk d else ret None) (s, w) = (Return r, (s1, w1))"
    using savePlayerData_vk_total [of d "(s, w)"] by (auto simp: ret_def)
  then obtain r s1 w1 where
    stage: "(if isVK s then savePlayerData_vk d else ret None) (s, w) = (Return r, (s1, w1))"
    by blast
  show ?thesis
  proof (cases r)
    case (Some v)
    with stage show ?thesis
      by (simp add: \<sigma> savePlayerData_def and_then_def getv_def ret_def)
  next
    case None
    have "\<exists>r \<sigma>'. try_catch
               (and_then (builtin (\<lambda>w. JSON_stringify w d)) (\<lambda>json.
                and_then (localStorage_setItem ''cloudSave'' json) (\<lambda>_.
                ret (Bool True))))
               (\<lambda>error. ret (Bool False)) (s1, w1) = (Return r, \<sigma>')"
      by (rule try_catch_total) (simp add: ret_def)
    moreover have "\<exists>r \<sigma>'. try_catch
               (and_then (await (StorageSet d)) (\<lambda>_. ret (Bool True)))
               (\<lambda>error. ret (Bool False)) (s1, w1) = (Return r, \<sigma>')"
      by (rule try_catch_total) (simp add: ret_def)
    ultimately show ?thesis
      using stage None
      by (cases "bridge s1") (simp_all add: \<sigma> savePlayerData_def and_then_def getv_def)
  qed
qed


lemma localStorage_getItem_run:
  "\<not> throws (answers w (length (calls w)) (LocalStorage_getItem k)) \<Longrightarrow>
   localStorage_getItem k (s, w) = (Return (local_value w k), (s, log_call (LocalStorage_getItem k) w))"
  by (simp add: localStorage_getItem_def js_defs throws_def local_value_def split: reply.splits)

lemma syncData_of_explicit:
  "syncData_of p c m =
     (if truthy c then [(''coins'', p c)] else []) @ (if truthy m then [(''maxLevel'', p m)] else [])"
  by (simp add: syncData_of_def)

text \<open>An answer that is itself an array is not parsed: the read of \<open>result.keys.forEach\<close>
  throws, and \<open>loadPlayerData\<close> goes on to \<open>bridge.storage.get()\<close> without reading the
  legacy values.\<close>

lemma loadPlayerData_vk_array_answer:
  assumes "answers w (length (calls w)) (VkSend ''VKWebAppStorageGet'' vk_storage_keys) = Returns (Arr elems)"
  shows "loadPlayerData_vk (s, w) =
           (Return None, (s, log_call (VkSend ''VKWebAppStorageGet'' vk_storage_keys) w))"
  using assms
  by (simp add: loadPlayerData_vk_def parse_vk_result_array try_catch_def and_then_def await_def
      invoke_def ret_def)

text \<open>
  C5. On VK (a VK bridge, a bridge whose platform id is \<open>vk\<close>), when
  \<open>VKWebAppStorageGet\<close> succeeds and no key is parsed from its result, and the reads of
  the legacy local keys \<open>gameCoins\<close> and \<open>maxLevel\<close> succeed and at least one holds a
  non-empty value, \<open>loadPlayerData\<close> builds the object \<open>{coins, maxLevel}\<close> from
  \<open>parseInt(_, 10)\<close> of the values present, runs \<open>savePlayerData\<close> on it and returns
  exactly that object.
\<close>

theorem loadPlayerData_vk_merges_legacy_values:
  fixes s :: sdk_state and w :: world
  defines "n \<equiv> length (calls w)"
      and "w3 \<equiv> w\<lparr>calls := calls w @ [VkSend ''VKWebAppStorageGet'' vk_storage_keys,
                     LocalStorage_getItem ''gameCoins'', LocalStorage_getItem ''maxLevel'']\<rparr>"
      and "localCoins \<equiv> local_value w ''gameCoins''"
      and "localMaxLevel \<equiv> local_value w ''maxLevel''"
      and "syncData \<equiv> (if truthy (local_value w ''gameCoins'')
                          then [(''coins'', parseInt10 w (local_value w ''gameCoins''))] else [])
                       @ (if truthy (local_value w ''maxLevel'')
                          then [(''maxLevel'', parseInt10 w (local_value w ''maxLevel''))] else [])"
  shows
  "isVK s
   \<and> answers w n (VkSend ''VKWebAppStorageGet'' vk_storage_keys) = Returns result
   \<and> result_of (parse_vk_result result (s, w)) = Return []
   \<and> \<not> throws (answers w (n + 1) (LocalStorage_getItem ''gameCoins''))
   \<and> \<not> throws (answers w (n + 2) (LocalStorage_getItem ''maxLevel''))
   \<and> (truthy localCoins \<or> truthy localMaxLevel) \<longrightarrow>
     loadPlayerData (s, w) = (Return (Obj syncData), snd (savePlayerData (Obj syncData) (s, w3)))"
proof
  assume h: "isVK s
   \<and> answers w n (VkSend ''VKWebAppStorageGet'' vk_storage_keys) = Returns result
   \<and> result_of (parse_vk_result result (s, w)) = Return []
   \<and> \<not> throws (answers w (n + 1) (LocalStorage_getItem ''gameCoins''))
   \<and> \<not> throws (answers w (n + 2) (LocalStorage_getItem ''maxLevel''))
   \<and> (truthy localCoins \<or> truthy localMaxLevel)"
  define w1 where "w1 = log_call (VkSend ''VKWebAppStorageGet'' vk_storage_keys) w"
  define w2 where "w2 = log_call (LocalStorage_getItem ''gameCoins'') w1"
  have w3: "w3 = log_call (LocalStorage_getItem ''maxLevel'') w2"
    by (simp add: w3_def w2_def w1_def log_call_def)
  have get: "await (VkSend ''VKWebAppStorageGet'' vk_storage_keys) (s, w) = (Return result, (s, w1))"
    using h by (simp add: await_def invoke_def and_then_def ret_def w1_def n_def)
  have parse: "parse_vk_result result (s, w1) = (Return [], (s, w1))"
    using h parse_vk_result_pure [of w1 w result s s] by (simp add: w1_def log_call_def)
  have coins: "localStorage_getItem ''gameCoins'' (s, w1) = (Return localCoins, (s, w2))"
    using h localStorage_getItem_run [of w1 "''gameCoins''" s]
    by (simp add: w1_def w2_def log_call_def n_def local_value_def localCoins_def)
  have level: "localStorage_getItem ''maxLevel'' (s, w2) = (Return localMaxLevel, (s, w3))"
    using h localStorage_getItem_run [of w2 "''maxLevel''" s]
    by (simp add: w1_def w2_def w3 log_call_def n_def local_value_def localMaxLevel_def eval_nat_numeral)
  have sync: "syncData_of (parseInt10 w3) localCoins localMaxLevel = syncData"
    by (simp add: syncData_of_explicit syncData_def localCoins_def localMaxLevel_def w3_def)
  obtain b \<sigma>' where save: "savePlayerData (Obj syncData) (s, w3) = (Return b, \<sigma>')"
    using savePlayerData_total by blast
  have vk: "loadPlayerData_vk (s, w) = (Return (Some (Obj syncData)), \<sigma>')"
    using h
    by (simp add: loadPlayerData_vk_def try_catch_def and_then_def get parse coins level
        builtin_def sync save ret_def Let_def)
  from h have "isVK s" by simp
  with vk show "loadPlayerData (s, w) = (Return (Obj syncData), snd (savePlayerData (Obj syncData) (s, w3)))"
    by (simp add: loadPlayerData_def and_then_def getv_def ret_def save)
qed


theorem loadPlayerData_vk_merges_legacy_values_witness:
  "isVK on_vk
   \<and> answers vk_empty_cloud 0 (VkSend ''VKWebAppStorageGet'' vk_storage_keys) = Returns empty_vk_answer
   \<and> result_of (parse_vk_result empty_vk_answer (on_vk, vk_empty_cloud)) = Return []
   \<and> \<not> throws (answers vk_empty_cloud 1 (LocalStorage_getItem ''gameCoins''))
   \<and> \<not> throws (answers vk_empty_cloud 2 (LocalStorage_getItem ''maxLevel''))
   \<and> local_value vk_empty_cloud ''gameCoins'' = Str ''120''
   \<and> local_value vk_empty_cloud ''maxLevel'' = Str ''7''
   \<and> result_of (loadPlayerData (on_vk, vk_empty_cloud)) =
        Return (Obj [(''coins'', Num 120), (''maxLevel'', Num 7)])
   \<and> calls (world_of (loadPlayerData (on_vk, vk_empty_cloud))) =
        [VkSend ''VKWebAppStorageGet'' vk_storage_keys,
         LocalStorage_getItem ''gameCoins'', LocalStorage_getItem ''maxLevel'',
         VkSend ''VKWebAppStorageSet'' (Obj [(''key'', Str ''gameCoins''), (''value'', Str ''120'')]),
         VkSend ''VKWebAppStorageSet'' (Obj [(''key'', Str ''gameMaxLevel''), (''value'', Str ''7'')])]"
proof -
  have idx: "length (calls vk_empty_cloud) = 0"
    by (simp add: vk_empty_cloud_def host0_def)
  have pre: "isVK on_vk
   \<and> answers vk_empty_cloud 0 (VkSend ''VKWebAppStorageGet'' vk_storage_keys) = Returns empty_vk_answer
   \<and> \<not> throws (answers vk_empty_cloud 1 (LocalStorage_getItem ''gameCoins''))
   \<and> \<not> throws (answers vk_empty_cloud 2 (LocalStorage_getItem ''maxLevel''))
   \<and> local_value vk_empty_cloud ''gameCoins'' = Str ''120''
   \<and> local_value vk_empty_cloud ''maxLevel'' = Str ''7''"
    by (simp add: isVK_def on_vk_def vk_game_bridge_def initial_state_def vk_empty_cloud_def host0_def
        throws_def local_value_def empty_vk_answer_def)
  have parsed: "result_of (parse_vk_result empty_vk_answer (on_vk, vk_empty_cloud)) = Return []"
    by (simp add: parse_vk_result_def parse_item_def member_def get_prop_def js_defs result_of_def
        empty_vk_answer_def)
  have ints: "parseInt10 vk_empty_cloud (Str ''120'') = Num 120 \<and> parseInt10 vk_empty_cloud (Str ''7'') = Num 7"
    by (simp add: vk_empty_cloud_def host0_def demo_parseInt_def)
  have saved: "calls (snd (snd (savePlayerData (Obj [(''coins'', Num 120), (''maxLevel'', Num 7)])
      (on_vk, vk_empty_cloud\<lparr>calls := calls vk_empty_cloud @
         [VkSend ''VKWebAppStorageGet'' vk_storage_keys,
          LocalStorage_getItem ''gameCoins'', LocalStorage_getItem ''maxLevel'']\<rparr>)))) =
        [VkSend ''VKWebAppStorageGet'' vk_storage_keys,
         LocalStorage_getItem ''gameCoins'', LocalStorage_getItem ''maxLevel'',
         VkSend ''VKWebAppStorageSet'' (Obj [(''key'', Str ''gameCoins''), (''value'', Str ''120'')]),
         VkSend ''VKWebAppStorageSet'' (Obj [(''key'', Str ''gameMaxLevel''), (''value'', Str ''7'')])]"
    by (simp add: savePlayerData_def savePlayerData_vk_def push_field_def String_of_def ToString_def
        member_def get_prop_def js_defs isVK_def on_vk_def vk_game_bridge_def initial_state_def
        vk_empty_cloud_def host0_def demo_String_def)
  from loadPlayerData_vk_merges_legacy_values [where s = on_vk and w = vk_empty_cloud
      and result = empty_vk_answer] pre parsed
  have "loadPlayerData (on_vk, vk_empty_cloud) =
      (Return (Obj [(''coins'', Num 120), (''maxLevel'', Num 7)]),
       snd (savePlayerData (Obj [(''coins'', Num 120), (''maxLevel'', Num 7)])
         (on_vk, vk_empty_cloud\<lparr>calls := calls vk_empty_cloud @
            [VkSend ''VKWebAppStorageGet'' vk_storage_keys,
             LocalStorage_getItem ''gameCoins'', LocalStorage_getItem ''maxLevel'']\<rparr>)))"
    by (simp add: idx ints numeral_2_eq_2)
  with pre parsed saved show ?thesis
    by (simp add: result_of_def world_of_def)
qed

subsection \<open>Failures of external calls\<close>

lemma showInterstitialAd_total:
  "\<exists>b \<sigma>'. showInterstitialAd reason \<sigma> = (Return (Obj [(''shown'', Bool b)]), \<sigma>')"
proof -
  obtain s w where \<sigma>: "\<sigma> = (s, w)" by (cases \<sigma>)
  show ?thesis
  proof (cases "isAdsDisabled s \<or> time_now w - lastInterstitialTime s < INTERSTITIAL_COOLDOWN")
    case True
    then show ?thesis
      unfolding \<sigma> by (auto simp: showInterstitialAd_disabled showInterstitialAd_blocked)
  next
    case False
    show ?thesis
    proof (cases "bridge s")
      case None
      with False show ?thesis unfolding \<sigma> by (auto simp: showInterstitialAd_dev)
    next
      case (Some br)
      with False show ?thesis
        unfolding \<sigma>
        by (cases "advertisement br"; cases "answers w (length (calls w) + 2) ShowInterstitial")
           (auto simp: showInterstitialAd_no_advertisement showInterstitialAd_allowed)
    qed
  qed
qed

lemma showShopRewardedAd_total:
  "\<exists>v \<sigma>'. showShopRewardedAd \<sigma> = (Return v, \<sigma>')"
proof -
  obtain s w where \<sigma>: "\<sigma> = (s, w)" by (cases \<sigma>)
  obtain b w' where ad: "showRewardedAd ''shop_coins'' (s, log_call DateNow w) =
      (Return (Obj [(''rewarded'', Bool b)]), (s, w'))"
    using showRewardedAd_result by blast
  show ?thesis
    unfolding \<sigma>
    by (cases "time_now w - lastShopRewardedTime s < SHOP_REWARDED_COOLDOWN")
       (simp_all add: showShopRewardedAd_blocked showShopRewardedAd_allowed [OF _ ad])
qed

lemma loadPlayerData_total:
  "\<exists>v \<sigma>'. loadPlayerData \<sigma> = (Return v, \<sigma>')"
proof -
  obtain s w where \<sigma>: "\<sigma> = (s, w)" by (cases \<sigma>)
  have "\<exists>r \<sigma>'. loadPlayerData_vk (s, w) = (Return r, \<sigma>')"
    unfolding loadPlayerData_vk_def by (rule try_catch_total) (simp add: ret_def)
  then have "\<exists>r s1 w1. (if isVK s then loadPlayerData_vk else ret None) (s, w) = (Return r, (s1, w1))"
    by (auto simp: ret_def)
  then obtain r s1 w1 where
    stage: "(if isVK s then loadPlayerData_vk else ret None) (s, w) = (Return r, (s1, w1))"
    by blast
  show ?thesis
  proof (cases r)
    case (Some v)
    with stage show ?thesis
      by (simp add: \<sigma> loadPlayerData_def and_then_def getv_def ret_def)
  next
    case None
    have "\<exists>r \<sigma>'. try_catch
               (and_then (localStorage_getItem ''cloudSave'') (\<lambda>saved.
                case saved of
                  Str str \<Rightarrow>
                    if truthy saved then
                      and_then (builtin (\<lambda>w. JSON_parse w str)) (\<lambda>parsed.
                      case parsed of Return v \<Rightarrow> ret v | Throw e \<Rightarrow> throw e)
                    else ret (Obj [])
                | _ \<Rightarrow> ret (Obj [])))
               (\<lambda>error. ret (Obj [])) (s1, w1) = (Return r, \<sigma>')"
      by (rule try_catch_total) (simp add: ret_def)
    moreover have "\<exists>r \<sigma>'. try_catch
               (and_then (await StorageGet) (\<lambda>data.
                ret (if truthy data then data else Obj [])))
               (\<lambda>error. ret (Obj [])) (s1, w1) = (Return r, \<sigma>')"
      by (rule try_catch_total) (simp add: ret_def)
    ultimately show ?thesis
      using stage None
      by (cases "bridge s1") (simp_all add: \<sigma> loadPlayerData_def and_then_def getv_def)
  qed
qed

lemma showStickyBanner_total:
  "\<exists>v \<sigma>'. showStickyBanner \<sigma> = (Return v, \<sigma>')"
proof -
  obtain s w where \<sigma>: "\<sigma> = (s, w)" by (cases \<sigma>)
  show ?thesis
  proof (cases "bridge s")
    case None
    then show ?thesis by (simp add: \<sigma> showStickyBanner_def js_defs)
  next
    case (Some br)
    have "\<exists>r \<sigma>'. try_catch
             (and_then showStickyBanner_vk (\<lambda>returned.
              case returned of
                Some v \<Rightarrow> ret v
              | None \<Rightarrow>
                  (case advertisement br of
                     Some a \<Rightarrow>
                       if showSticky_is_function a then
                         and_then (await ShowSticky) (\<lambda>_. ret (Bool True))
                       else ret (Bool False)
                   | None \<Rightarrow> ret (Bool False))))
             (\<lambda>error. ret (Bool False)) (s, w) = (Return r, \<sigma>')"
      by (rule try_catch_total) (simp add: ret_def)
    with Some show ?thesis
      by (cases "platform_id br = ''vk''")
         (simp_all add: \<sigma> showStickyBanner_def isVKPlatform_def and_then_def getv_def ret_def)
  qed
qed

lemma external_failure_fallbacks:
  assumes "bridge s = Some br" and "\<forall>k c. is_failure (answers w k c)"
  shows "result_of (showInterstitialAd reason (s, w)) = Return (Obj [(''shown'', Bool False)])"
    and "result_of (showRewardedAd reason (s, w)) = Return (Obj [(''rewarded'', Bool False)])"
    and "\<not> isVK s \<Longrightarrow> result_of (loadPlayerData (s, w)) = Return (Obj [])"
    and "\<not> isVK s \<Longrightarrow> result_of (savePlayerData d (s, w)) = Return (Bool False)"
proof -
  from assms have a: "\<And>k c v. answers w k c \<noteq> Returns v"
    by (metis is_failure_def reply.simps(10))
  show "result_of (showInterstitialAd reason (s, w)) = Return (Obj [(''shown'', Bool False)])"
  proof (cases "isAdsDisabled s \<or> time_now w - lastInterstitialTime s < INTERSTITIAL_COOLDOWN")
    case True
    then show ?thesis
      by (auto simp: showInterstitialAd_disabled showInterstitialAd_blocked result_of_def)
  next
    case False
    with assms(1) a [of "length (calls w) + 2" ShowInterstitial] show ?thesis
      by (cases "advertisement br")
         (auto simp: showInterstitialAd_no_advertisement showInterstitialAd_allowed result_of_def
            split: reply.splits)
  qed
  from assms(1) a show "result_of (showRewardedAd reason (s, w)) = Return (Obj [(''rewarded'', Bool False)])"
    by (auto simp: showRewardedAd_run result_of_def split: option.splits reply.splits)
  from assms(1) a show "\<not> isVK s \<Longrightarrow> result_of (loadPlayerData (s, w)) = Return (Obj [])"
    by (auto simp: loadPlayerData_def js_defs result_of_def split: reply.splits)
  from assms(1) a show "\<not> isVK s \<Longrightarrow> result_of (savePlayerData d (s, w)) = Return (Bool False)"
    by (auto simp: savePlayerData_def js_defs result_of_def split: reply.splits)
qed

lemma makePurchase_failure:
  assumes "bridge s = Some br"
      and "answers w (length (calls w)) (Purchase (Obj [(''id'', productId)])) = Rejects e
         \<or> answers w (length (calls w)) (Purchase (Obj [(''id'', productId)])) = Throws e"
      and "e \<noteq> Undefined" and "e \<noteq> Null"
  shows "result_of (makePurchase productId (s, w)) =
           Return (Obj [(''success'', Bool False), (''error'', get_prop e ''message'')])"
  using assms
  by (cases e) (auto simp: makePurchase_def js_defs member_def result_of_def)

text \<open>
  C4 fails for \<open>makePurchase\<close>. The catch block reads \<open>error.message\<close>; when
  \<open>bridge.payments.purchase\<close> rejects without a reason the thrown value is
  \<open>undefined\<close>, the read throws a TypeError inside the catch block, and the exception
  reaches the caller instead of \<open>{success:false}\<close>.
\<close>

theorem makePurchase_rejection_without_reason_propagates:
  "bridge with_bridge = Some web_bridge
   \<and> answers rejecting_payments 0 (Purchase (Obj [(''id'', Str ''no_ads'')])) = Rejects Undefined
   \<and> makePurchase (Str ''no_ads'') (with_bridge, rejecting_payments) =
       (Throw (TypeError ''Cannot read properties of undefined''),
        (with_bridge, log_call (Purchase (Obj [(''id'', Str ''no_ads'')])) rejecting_payments))"
  by (simp add: makePurchase_def js_defs member_def rejecting_payments_def demo_defs)

end
